theory Spec2Isabelle
  imports Main
begin

section \<open>The foreign-function boundary of flintdb_cffi.py\<close>

text \<open>
  The binding is glue over an engine reached through cffi. Every engine routine is a
  function pointer (a vtable slot such as \<^verbatim>\<open>self._t.apply\<close>) or a library symbol
  (\<^verbatim>\<open>_lib.flintdb_table_drop\<close>); in the model it is a parameter of the method that calls
  it. A routine taking \<^verbatim>\<open>char **e\<close> is a function from the engine state to its C return
  value, the content of the error slot after the call (\<open>None\<close> for \<^verbatim>\<open>ffi.NULL\<close>,
  \<open>Some msg\<close> for a C string) and the new engine state. A \<^verbatim>\<open>void\<close> routine without
  error slot (close, free) is a function on the engine state alone.

  Pointers are addresses, \<^verbatim>\<open>ffi.NULL\<close> is address 0. A Python \<^verbatim>\<open>str\<close> is represented by
  the bytes \<^verbatim>\<open>_to_cstr\<close> hands to the engine (its UTF-8 encoding), so \<open>length\<close> counts
  bytes as \<^verbatim>\<open>len(kb)\<close> does. A \<^verbatim>\<open>str\<close> that has no encoding (a lone surrogate), on which
  \<^verbatim>\<open>_to_cstr\<close> raises before any call, is not a value of the model.

  cffi converts each integer argument to the C type of the routine's parameter. Where a
  method hands over an integer of its caller (a column index, a value, a row id, a size),
  a value outside that type's range raises \<^verbatim>\<open>OverflowError\<close> before the engine is entered.
  The lengths that \<^verbatim>\<open>Meta.add_index\<close> and \<^verbatim>\<open>Aggregate.build\<close> hand over as \<^verbatim>\<open>u16\<close> are
  taken to fit.
\<close>

type_synonym ptr = nat

definition NULL :: ptr where
  "NULL = 0"

type_synonym errp = "string option"

type_synonym ('a, 's) ecall = "'s \<Rightarrow> ('a \<times> errp) \<times> 's"

datatype exn = FlintDBError string | StopIteration | OverflowError

text \<open>\<^verbatim>\<open>_err_ptr\<close>: a fresh \<^verbatim>\<open>char **\<close>, zero-initialised by \<^verbatim>\<open>ffi.new\<close>.\<close>

definition err_ptr :: errp where
  "err_ptr = None"

text \<open>
  \<^verbatim>\<open>_raise_if_err\<close>: raise \<^verbatim>\<open>FlintDBError(msg)\<close> iff \<^verbatim>\<open>err[0] != ffi.NULL\<close>. The exception
  carries the bytes of the engine's C string; the Python message is their decoding
  (\<^verbatim>\<open>decode("utf-8", "replace")\<close>), which is a function of these bytes.
\<close>

definition raise_if_err :: "errp \<Rightarrow> exn + unit" where
  "raise_if_err err = (case err of None \<Rightarrow> Inr () | Some msg \<Rightarrow> Inl (FlintDBError msg))"

definition to_cstr :: "string \<Rightarrow> string" where
  "to_cstr s = s"

text \<open>
  What the engine reads of a bytes object handed over as \<^verbatim>\<open>const char *\<close>: the bytes before
  the first zero byte.
\<close>

definition c_str :: "string \<Rightarrow> string" where
  "c_str b = takeWhile (\<lambda>c. c \<noteq> CHR 0x00) b"

text \<open>
  The ranges of the C types of the cdef. An \<^verbatim>\<open>enum\<close> without negative constant is an
  \<^verbatim>\<open>unsigned int\<close> to cffi; \<^verbatim>\<open>int\<close> is the cdef's \<^verbatim>\<open>i32\<close>.
\<close>

definition fits_u16 :: "int \<Rightarrow> bool" where
  "fits_u16 x = (0 \<le> x \<and> x < 65536)"

definition fits_i16 :: "int \<Rightarrow> bool" where
  "fits_i16 x = (- 32768 \<le> x \<and> x < 32768)"

definition fits_i32 :: "int \<Rightarrow> bool" where
  "fits_i32 x = (- 2147483648 \<le> x \<and> x < 2147483648)"

definition fits_i64 :: "int \<Rightarrow> bool" where
  "fits_i64 x = (- 9223372036854775808 \<le> x \<and> x < 9223372036854775808)"

definition fits_enum :: "int \<Rightarrow> bool" where
  "fits_enum x = (0 \<le> x \<and> x < 4294967296)"

text \<open>Reading an engine reply: the C return value and the error slot after the call.\<close>

definition ret_of :: "('a \<times> errp) \<times> 's \<Rightarrow> 'a" where
  "ret_of x = fst (fst x)"

definition err_of :: "('a \<times> errp) \<times> 's \<Rightarrow> errp" where
  "err_of x = snd (fst x)"

text \<open>What a method call did: raised \<^verbatim>\<open>FlintDBError\<close>, or returned normally.\<close>

definition raises_FlintDBError :: "exn + 'a \<Rightarrow> bool" where
  "raises_FlintDBError x = (case x of Inl (FlintDBError m) \<Rightarrow> True | _ \<Rightarrow> False)"

definition returns_normally :: "exn + 'a \<Rightarrow> bool" where
  "returns_normally x = (case x of Inr v \<Rightarrow> True | Inl e \<Rightarrow> False)"

subsection \<open>Handles\<close>

text \<open>
  Each class keeps the engine pointer in one attribute; \<^verbatim>\<open>Row\<close>, \<^verbatim>\<open>GroupBy\<close> and
  \<^verbatim>\<open>AggFunc\<close> also keep the flag \<^verbatim>\<open>_owned\<close>. Python mutates the object in place; the model
  returns the updated handle.
\<close>

record Meta =
  meta_path :: string
  meta_m :: ptr

record Row =
  row_r :: ptr
  row_owned :: bool

record CursorI64 =
  cursor_i64_c :: ptr

record CursorRow =
  cursor_row_c :: ptr

record Table =
  table_t :: ptr

record GenericFile =
  genericfile_g :: ptr

record FileSort =
  filesort_fs :: ptr

record GroupBy =
  groupby_gb :: ptr
  groupby_owned :: bool

record AggFunc =
  aggfunc_f :: ptr
  aggfunc_owned :: bool

record Aggregate =
  aggregate_agg :: ptr

record SqlResult =
  sqlresult_res :: ptr

definition MAX_COLUMN_NAME_LIMIT :: nat where
  "MAX_COLUMN_NAME_LIMIT = 40"

subsection \<open>Row\<close>

definition Row_borrowed :: "ptr \<Rightarrow> Row" where
  "Row_borrowed p = \<lparr>row_r = p, row_owned = False\<rparr>"

definition Row_owned :: "ptr \<Rightarrow> Row" where
  "Row_owned p = \<lparr>row_r = p, row_owned = True\<rparr>"

definition Row_ptr :: "Row \<Rightarrow> ptr" where
  "Row_ptr self = row_r self"

definition Row_set_string ::
  "(ptr \<Rightarrow> nat \<Rightarrow> string \<Rightarrow> (unit, 's) ecall) \<Rightarrow> Row \<Rightarrow> int \<Rightarrow> string \<Rightarrow> 's \<Rightarrow> (exn + unit) \<times> 's" where
  "Row_set_string string_set self idx v s =
     (if \<not> fits_u16 idx then (Inl OverflowError, s)
      else case string_set (row_r self) (nat idx) (c_str (to_cstr v)) s of
             ((u, err), s') \<Rightarrow> (raise_if_err err, s'))"

definition Row_set_i32 ::
  "(ptr \<Rightarrow> nat \<Rightarrow> int \<Rightarrow> (unit, 's) ecall) \<Rightarrow> Row \<Rightarrow> int \<Rightarrow> int \<Rightarrow> 's \<Rightarrow> (exn + unit) \<times> 's" where
  "Row_set_i32 i32_set self idx v s =
     (if \<not> (fits_u16 idx \<and> fits_i32 v) then (Inl OverflowError, s)
      else case i32_set (row_r self) (nat idx) v s of
             ((u, err), s') \<Rightarrow> (raise_if_err err, s'))"

definition Row_set_i64 ::
  "(ptr \<Rightarrow> nat \<Rightarrow> int \<Rightarrow> (unit, 's) ecall) \<Rightarrow> Row \<Rightarrow> int \<Rightarrow> int \<Rightarrow> 's \<Rightarrow> (exn + unit) \<times> 's" where
  "Row_set_i64 i64_set self idx v s =
     (if \<not> (fits_u16 idx \<and> fits_i64 v) then (Inl OverflowError, s)
      else case i64_set (row_r self) (nat idx) v s of
             ((u, err), s') \<Rightarrow> (raise_if_err err, s'))"

text \<open>
  \<^verbatim>\<open>set_f64\<close> applies Python's \<^verbatim>\<open>float\<close> to the value before the call. The conversion is a
  parameter: it gives the double, or raises. The double is only forwarded, so its type is
  open.
\<close>

definition Row_set_f64 ::
  "('v \<Rightarrow> exn + 'f) \<Rightarrow> (ptr \<Rightarrow> nat \<Rightarrow> 'f \<Rightarrow> (unit, 's) ecall) \<Rightarrow>
   Row \<Rightarrow> int \<Rightarrow> 'v \<Rightarrow> 's \<Rightarrow> (exn + unit) \<times> 's" where
  "Row_set_f64 to_float f64_set self idx v s =
     (case to_float v of
        Inl x \<Rightarrow> (Inl x, s)
      | Inr d \<Rightarrow>
          if \<not> fits_u16 idx then (Inl OverflowError, s)
          else case f64_set (row_r self) (nat idx) d s of
                 ((u, err), s') \<Rightarrow> (raise_if_err err, s'))"

definition Row_get_i32 ::
  "(ptr \<Rightarrow> nat \<Rightarrow> (int, 's) ecall) \<Rightarrow> Row \<Rightarrow> int \<Rightarrow> 's \<Rightarrow> (exn + int) \<times> 's" where
  "Row_get_i32 i32_get self idx s =
     (if \<not> fits_u16 idx then (Inl OverflowError, s)
      else case i32_get (row_r self) (nat idx) s of
             ((v, err), s') \<Rightarrow>
               (case raise_if_err err of Inl x \<Rightarrow> (Inl x, s') | Inr u \<Rightarrow> (Inr v, s')))"

text \<open>\<^verbatim>\<open>validate\<close>: the engine's \<^verbatim>\<open>i8\<close> verdict, turned into a \<^verbatim>\<open>bool\<close> after the error check.\<close>

definition Row_validate ::
  "(ptr \<Rightarrow> (int, 's) ecall) \<Rightarrow> Row \<Rightarrow> 's \<Rightarrow> (exn + bool) \<times> 's" where
  "Row_validate validate self s =
     (case validate (row_r self) s of
        ((ok, err), s') \<Rightarrow>
          (case raise_if_err err of Inl x \<Rightarrow> (Inl x, s') | Inr u \<Rightarrow> (Inr (ok \<noteq> 0), s')))"

text \<open>
  \<^verbatim>\<open>close\<close>: the engine's \<^verbatim>\<open>free\<close> runs only for a non-null pointer of an owned row; the
  pointer is cleared in every case.
\<close>

definition Row_close :: "(ptr \<Rightarrow> 's \<Rightarrow> 's) \<Rightarrow> Row \<Rightarrow> 's \<Rightarrow> Row \<times> 's" where
  "Row_close free_fn self s =
     (let s' = (if row_r self \<noteq> NULL \<and> row_owned self then free_fn (row_r self) s else s)
      in (self\<lparr>row_r := NULL\<rparr>, s'))"

subsection \<open>Meta\<close>

definition Meta_add_column ::
  "(ptr \<Rightarrow> string \<Rightarrow> int \<Rightarrow> int \<Rightarrow> int \<Rightarrow> int \<Rightarrow> string \<Rightarrow> string \<Rightarrow> (unit, 's) ecall) \<Rightarrow>
   Meta \<Rightarrow> string \<Rightarrow> int \<Rightarrow> int \<Rightarrow> int \<Rightarrow> int \<Rightarrow> string \<Rightarrow> string \<Rightarrow> 's \<Rightarrow> (exn + unit) \<times> 's" where
  "Meta_add_column columns_add self name variant_type bytes precision nullspec dflt comment s =
     (if \<not> (fits_enum variant_type \<and> fits_i32 bytes \<and> fits_i16 precision \<and> fits_enum nullspec)
      then (Inl OverflowError, s)
      else case columns_add (meta_m self) (c_str (to_cstr name)) variant_type bytes precision
                  nullspec (c_str (to_cstr dflt)) (c_str (to_cstr comment)) s of
             ((u, err), s') \<Rightarrow> (raise_if_err err, s'))"

text \<open>
  \<^verbatim>\<open>ffi.memmove(dest, src, n)\<close> on a destination buffer: its first \<open>n\<close> bytes become the
  first \<open>n\<close> bytes of the source, the rest stays.
\<close>

definition memmove :: "string \<Rightarrow> string \<Rightarrow> nat \<Rightarrow> string" where
  "memmove dest src n = take n src @ drop n dest"

text \<open>
  The loop of \<^verbatim>\<open>add_index\<close> over \<^verbatim>\<open>enumerate(keys)\<close>: slot \<open>i\<close> of \<^verbatim>\<open>keys_arr\<close> receives at
  most \<^verbatim>\<open>MAX_COLUMN_NAME_LIMIT - 1\<close> bytes of the key.
\<close>

fun fill_keys :: "string list \<Rightarrow> nat \<Rightarrow> string list \<Rightarrow> string list" where
  "fill_keys keys_arr i [] = keys_arr"
| "fill_keys keys_arr i (k # ks) =
     (let kb = to_cstr k;
          n = min (length kb) (MAX_COLUMN_NAME_LIMIT - 1)
      in fill_keys (keys_arr[i := memmove (keys_arr ! i) kb n]) (Suc i) ks)"

text \<open>\<^verbatim>\<open>ffi.new("char[key_count][40]")\<close>: zero-initialised slots.\<close>

definition new_keys_arr :: "nat \<Rightarrow> string list" where
  "new_keys_arr key_count = replicate key_count (replicate MAX_COLUMN_NAME_LIMIT (CHR 0x00))"

definition add_index_keys :: "string list \<Rightarrow> string list" where
  "add_index_keys keys = fill_keys (new_keys_arr (length keys)) 0 keys"

definition Meta_add_index ::
  "(ptr \<Rightarrow> string \<Rightarrow> string option \<Rightarrow> string list \<Rightarrow> nat \<Rightarrow> (unit, 's) ecall) \<Rightarrow>
   Meta \<Rightarrow> string \<Rightarrow> string option \<Rightarrow> string list \<Rightarrow> 's \<Rightarrow> (exn + unit) \<times> 's" where
  "Meta_add_index indexes_add self name algorithm keys s =
     (let key_count = length keys;
          keys_arr = add_index_keys keys;
          algo_b = (case algorithm of None \<Rightarrow> None | Some a \<Rightarrow> Some (to_cstr a))
      in case indexes_add (meta_m self) (to_cstr name) algo_b keys_arr key_count s of
           ((u, err), s') \<Rightarrow> (raise_if_err err, s'))"

definition Meta_close :: "(ptr \<Rightarrow> 's \<Rightarrow> 's) \<Rightarrow> Meta \<Rightarrow> 's \<Rightarrow> Meta \<times> 's" where
  "Meta_close meta_free_ptr self s =
     (if meta_m self \<noteq> NULL then (self\<lparr>meta_m := NULL\<rparr>, meta_free_ptr (meta_m self) s)
      else (self, s))"

subsection \<open>Cursors\<close>

definition CursorI64_next ::
  "(ptr \<Rightarrow> (int, 's) ecall) \<Rightarrow> CursorI64 \<Rightarrow> 's \<Rightarrow> (exn + int) \<times> 's" where
  "CursorI64_next nxt self s =
     (case nxt (cursor_i64_c self) s of
        ((v, err), s') \<Rightarrow>
          (case raise_if_err err of Inl x \<Rightarrow> (Inl x, s') | Inr u \<Rightarrow> (Inr v, s')))"

text \<open>\<^verbatim>\<open>__next__\<close>: a negative row id ends the iteration.\<close>

definition CursorI64_iter_next ::
  "(ptr \<Rightarrow> (int, 's) ecall) \<Rightarrow> CursorI64 \<Rightarrow> 's \<Rightarrow> (exn + int) \<times> 's" where
  "CursorI64_iter_next nxt self s =
     (case CursorI64_next nxt self s of
        (Inl x, s') \<Rightarrow> (Inl x, s')
      | (Inr v, s') \<Rightarrow> if v < 0 then (Inl StopIteration, s') else (Inr v, s'))"

definition CursorI64_close :: "(ptr \<Rightarrow> 's \<Rightarrow> 's) \<Rightarrow> CursorI64 \<Rightarrow> 's \<Rightarrow> CursorI64 \<times> 's" where
  "CursorI64_close close_fn self s =
     (if cursor_i64_c self \<noteq> NULL
      then (self\<lparr>cursor_i64_c := NULL\<rparr>, close_fn (cursor_i64_c self) s)
      else (self, s))"

definition CursorRow_next ::
  "(ptr \<Rightarrow> (ptr, 's) ecall) \<Rightarrow> CursorRow \<Rightarrow> 's \<Rightarrow> (exn + Row option) \<times> 's" where
  "CursorRow_next nxt self s =
     (case nxt (cursor_row_c self) s of
        ((r, err), s') \<Rightarrow>
          (case raise_if_err err of
             Inl x \<Rightarrow> (Inl x, s')
           | Inr u \<Rightarrow> if r = NULL then (Inr None, s') else (Inr (Some (Row_borrowed r)), s')))"

text \<open>\<^verbatim>\<open>__next__\<close>: \<^verbatim>\<open>None\<close> ends the iteration.\<close>

definition CursorRow_iter_next ::
  "(ptr \<Rightarrow> (ptr, 's) ecall) \<Rightarrow> CursorRow \<Rightarrow> 's \<Rightarrow> (exn + Row) \<times> 's" where
  "CursorRow_iter_next nxt self s =
     (case CursorRow_next nxt self s of
        (Inl x, s') \<Rightarrow> (Inl x, s')
      | (Inr None, s') \<Rightarrow> (Inl StopIteration, s')
      | (Inr (Some r), s') \<Rightarrow> (Inr r, s'))"

definition CursorRow_close :: "(ptr \<Rightarrow> 's \<Rightarrow> 's) \<Rightarrow> CursorRow \<Rightarrow> 's \<Rightarrow> CursorRow \<times> 's" where
  "CursorRow_close close_fn self s =
     (if cursor_row_c self \<noteq> NULL
      then (self\<lparr>cursor_row_c := NULL\<rparr>, close_fn (cursor_row_c self) s)
      else (self, s))"

text \<open>\<open>n\<close> consecutive calls of a method on the same object: the results in call order.\<close>

fun calls :: "nat \<Rightarrow> ('s \<Rightarrow> 'r \<times> 's) \<Rightarrow> 's \<Rightarrow> 'r list \<times> 's" where
  "calls 0 m s = ([], s)"
| "calls (Suc n) m s = (case m s of (r, s') \<Rightarrow> (case calls n m s' of (rs, s'') \<Rightarrow> (r # rs, s'')))"

subsection \<open>Table\<close>

text \<open>
  \<^verbatim>\<open>apply\<close> passes \<^verbatim>\<open>1 if check_dup else 0\<close> in the position the cdef declares as
  \<^verbatim>\<open>i8 upsert\<close>, and turns a negative row id into an error of its own.
\<close>

definition Table_apply ::
  "(ptr \<Rightarrow> ptr \<Rightarrow> int \<Rightarrow> (int, 's) ecall) \<Rightarrow> Table \<Rightarrow> Row \<Rightarrow> bool \<Rightarrow> 's \<Rightarrow> (exn + int) \<times> 's" where
  "Table_apply apply_fn self row check_dup s =
     (case apply_fn (table_t self) (Row_ptr row) (if check_dup then 1 else 0) s of
        ((rowid, err), s') \<Rightarrow>
          (case raise_if_err err of
             Inl x \<Rightarrow> (Inl x, s')
           | Inr u \<Rightarrow> if rowid < 0 then (Inl (FlintDBError ''apply returned < 0''), s')
                      else (Inr rowid, s')))"

definition Table_delete_at ::
  "(ptr \<Rightarrow> int \<Rightarrow> (int, 's) ecall) \<Rightarrow> Table \<Rightarrow> int \<Rightarrow> 's \<Rightarrow> (exn + int) \<times> 's" where
  "Table_delete_at delete_at self rowid s =
     (if \<not> fits_i64 rowid then (Inl OverflowError, s)
      else case delete_at (table_t self) rowid s of
             ((r, err), s') \<Rightarrow>
               (case raise_if_err err of Inl x \<Rightarrow> (Inl x, s') | Inr u \<Rightarrow> (Inr r, s')))"

definition Table_find ::
  "(ptr \<Rightarrow> string \<Rightarrow> (ptr, 's) ecall) \<Rightarrow> Table \<Rightarrow> string \<Rightarrow> 's \<Rightarrow> (exn + CursorI64) \<times> 's" where
  "Table_find find_fn self wh s =
     (case find_fn (table_t self) (c_str (to_cstr wh)) s of
        ((c, err), s') \<Rightarrow>
          (case raise_if_err err of
             Inl x \<Rightarrow> (Inl x, s')
           | Inr u \<Rightarrow> if c = NULL then (Inl (FlintDBError ''find returned NULL''), s')
                      else (Inr \<lparr>cursor_i64_c = c\<rparr>, s')))"

definition Table_read ::
  "(ptr \<Rightarrow> int \<Rightarrow> (ptr, 's) ecall) \<Rightarrow> Table \<Rightarrow> int \<Rightarrow> 's \<Rightarrow> (exn + Row) \<times> 's" where
  "Table_read read_fn self rowid s =
     (if \<not> fits_i64 rowid then (Inl OverflowError, s)
      else case read_fn (table_t self) rowid s of
             ((r, err), s') \<Rightarrow>
               (case raise_if_err err of
                  Inl x \<Rightarrow> (Inl x, s')
                | Inr u \<Rightarrow> if r = NULL then (Inl (FlintDBError ''read returned NULL''), s')
                           else (Inr (Row_borrowed r), s')))"

definition Table_close :: "(ptr \<Rightarrow> 's \<Rightarrow> 's) \<Rightarrow> Table \<Rightarrow> 's \<Rightarrow> Table \<times> 's" where
  "Table_close close_fn self s =
     (if table_t self \<noteq> NULL then (self\<lparr>table_t := NULL\<rparr>, close_fn (table_t self) s)
      else (self, s))"

text \<open>
  \<^verbatim>\<open>drop\<close> hands \<^verbatim>\<open>ffi.NULL\<close> to the engine as the error slot and drops the \<^verbatim>\<open>int\<close> it
  returns. The routine takes the slot (\<open>None\<close> when the caller passes no slot) and
  returns it as it is after the call.
\<close>

definition Table_drop ::
  "(string \<Rightarrow> errp option \<Rightarrow> 's \<Rightarrow> (int \<times> errp option) \<times> 's) \<Rightarrow> string \<Rightarrow> 's \<Rightarrow> (exn + unit) \<times> 's" where
  "Table_drop table_drop filepath s =
     (case table_drop (to_cstr filepath) None s of (rc_slot, s') \<Rightarrow> (Inr (), s'))"

subsection \<open>GenericFile\<close>

definition GenericFile_write ::
  "(ptr \<Rightarrow> ptr \<Rightarrow> (int, 's) ecall) \<Rightarrow> GenericFile \<Rightarrow> Row \<Rightarrow> 's \<Rightarrow> (exn + int) \<times> 's" where
  "GenericFile_write write_fn self row s =
     (case write_fn (genericfile_g self) (Row_ptr row) s of
        ((n, err), s') \<Rightarrow>
          (case raise_if_err err of Inl x \<Rightarrow> (Inl x, s') | Inr u \<Rightarrow> (Inr n, s')))"

definition GenericFile_find ::
  "(ptr \<Rightarrow> string \<Rightarrow> (ptr, 's) ecall) \<Rightarrow> GenericFile \<Rightarrow> string \<Rightarrow> 's \<Rightarrow> (exn + CursorRow) \<times> 's" where
  "GenericFile_find find_fn self wh s =
     (case find_fn (genericfile_g self) (c_str (to_cstr wh)) s of
        ((c, err), s') \<Rightarrow>
          (case raise_if_err err of
             Inl x \<Rightarrow> (Inl x, s')
           | Inr u \<Rightarrow> if c = NULL then (Inl (FlintDBError ''genericfile.find returned NULL''), s')
                      else (Inr \<lparr>cursor_row_c = c\<rparr>, s')))"

definition GenericFile_close :: "(ptr \<Rightarrow> 's \<Rightarrow> 's) \<Rightarrow> GenericFile \<Rightarrow> 's \<Rightarrow> GenericFile \<times> 's" where
  "GenericFile_close close_fn self s =
     (if genericfile_g self \<noteq> NULL
      then (self\<lparr>genericfile_g := NULL\<rparr>, close_fn (genericfile_g self) s)
      else (self, s))"

text \<open>The engine's \<^verbatim>\<open>flintdb_genericfile_drop\<close> returns \<^verbatim>\<open>void\<close>.\<close>

definition GenericFile_drop ::
  "(string \<Rightarrow> errp option \<Rightarrow> 's \<Rightarrow> (unit \<times> errp option) \<times> 's) \<Rightarrow> string \<Rightarrow> 's \<Rightarrow> (exn + unit) \<times> 's" where
  "GenericFile_drop genericfile_drop filepath s =
     (case genericfile_drop (to_cstr filepath) None s of (rc_slot, s') \<Rightarrow> (Inr (), s'))"

subsection \<open>FileSort\<close>

definition FileSort_add ::
  "(ptr \<Rightarrow> ptr \<Rightarrow> (int, 's) ecall) \<Rightarrow> FileSort \<Rightarrow> Row \<Rightarrow> 's \<Rightarrow> (exn + int) \<times> 's" where
  "FileSort_add add_fn self row s =
     (case add_fn (filesort_fs self) (Row_ptr row) s of
        ((n, err), s') \<Rightarrow>
          (case raise_if_err err of Inl x \<Rightarrow> (Inl x, s') | Inr u \<Rightarrow> (Inr n, s')))"

definition FileSort_read ::
  "(ptr \<Rightarrow> int \<Rightarrow> (ptr, 's) ecall) \<Rightarrow> FileSort \<Rightarrow> int \<Rightarrow> 's \<Rightarrow> (exn + Row) \<times> 's" where
  "FileSort_read read_fn self i s =
     (if \<not> fits_i64 i then (Inl OverflowError, s)
      else case read_fn (filesort_fs self) i s of
             ((r, err), s') \<Rightarrow>
               (case raise_if_err err of
                  Inl x \<Rightarrow> (Inl x, s')
                | Inr u \<Rightarrow> if r = NULL then (Inl (FlintDBError ''filesort.read returned NULL''), s')
                           else (Inr (Row_owned r), s')))"

text \<open>
  \<^verbatim>\<open>sort\<close> wraps the caller's \<^verbatim>\<open>compare\<close> in a callback that presents the two engine
  pointers as borrowed rows, and passes \<^verbatim>\<open>ffi.NULL\<close> as the engine-side context. The
  callback returns a C \<^verbatim>\<open>int\<close>: a result that does not fit is dropped by cffi and the
  engine receives 0.
\<close>

definition FileSort_sort ::
  "(ptr \<Rightarrow> (ptr \<Rightarrow> ptr \<Rightarrow> ptr \<Rightarrow> int) \<Rightarrow> ptr \<Rightarrow> (int, 's) ecall) \<Rightarrow>
   FileSort \<Rightarrow> ('c \<Rightarrow> Row \<Rightarrow> Row \<Rightarrow> int) \<Rightarrow> 'c \<Rightarrow> 's \<Rightarrow> (exn + int) \<times> 's" where
  "FileSort_sort sort_fn self compare ctx s =
     (let cmpr = (\<lambda>c a b. let r = compare ctx (Row_borrowed a) (Row_borrowed b)
                            in if fits_i32 r then r else 0)
      in case sort_fn (filesort_fs self) cmpr NULL s of
           ((n, err), s') \<Rightarrow>
             (case raise_if_err err of Inl x \<Rightarrow> (Inl x, s') | Inr u \<Rightarrow> (Inr n, s')))"

definition FileSort_close :: "(ptr \<Rightarrow> 's \<Rightarrow> 's) \<Rightarrow> FileSort \<Rightarrow> 's \<Rightarrow> FileSort \<times> 's" where
  "FileSort_close close_fn self s =
     (if filesort_fs self \<noteq> NULL
      then (self\<lparr>filesort_fs := NULL\<rparr>, close_fn (filesort_fs self) s)
      else (self, s))"

subsection \<open>GroupBy, AggFunc, Aggregate, SqlResult\<close>

definition GroupBy_close :: "(ptr \<Rightarrow> 's \<Rightarrow> 's) \<Rightarrow> GroupBy \<Rightarrow> 's \<Rightarrow> GroupBy \<times> 's" where
  "GroupBy_close free_fn self s =
     (if groupby_owned self \<and> groupby_gb self \<noteq> NULL
      then (self\<lparr>groupby_gb := NULL\<rparr>, free_fn (groupby_gb self) s)
      else (self, s))"

definition AggFunc_close :: "(ptr \<Rightarrow> 's \<Rightarrow> 's) \<Rightarrow> AggFunc \<Rightarrow> 's \<Rightarrow> AggFunc \<times> 's" where
  "AggFunc_close free_fn self s =
     (if aggfunc_owned self \<and> aggfunc_f self \<noteq> NULL
      then (self\<lparr>aggfunc_f := NULL\<rparr>, free_fn (aggfunc_f self) s)
      else (self, s))"

text \<open>
  The two loops of \<^verbatim>\<open>Aggregate.build\<close>: entry \<open>i\<close> of the pointer array receives the
  handle's engine pointer, and the handle's \<^verbatim>\<open>_owned\<close> becomes \<^verbatim>\<open>False\<close>. The result is
  the array and the handles as the loop leaves them.
\<close>

fun fill_groupbys :: "GroupBy list \<Rightarrow> ptr list \<times> GroupBy list" where
  "fill_groupbys [] = ([], [])"
| "fill_groupbys (gb # gbs) =
     (case fill_groupbys gbs of
        (arr, gbs') \<Rightarrow> (groupby_gb gb # arr, gb\<lparr>groupby_owned := False\<rparr> # gbs'))"

fun fill_funcs :: "AggFunc list \<Rightarrow> ptr list \<times> AggFunc list" where
  "fill_funcs [] = ([], [])"
| "fill_funcs (f # fs) =
     (case fill_funcs fs of
        (arr, fs') \<Rightarrow> (aggfunc_f f # arr, f\<lparr>aggfunc_owned := False\<rparr> # fs'))"

text \<open>
  \<^verbatim>\<open>Aggregate.build\<close>. A pointer array is \<open>None\<close> for \<^verbatim>\<open>ffi.NULL\<close> (count 0) and
  \<open>Some\<close> of its entries otherwise (the block from \<^verbatim>\<open>malloc\<close>, which the engine takes
  over). Both loops run before \<^verbatim>\<open>aggregate_new\<close> is called, so the handles come back
  marked on every path, also when the call raises.
\<close>

definition Aggregate_build ::
  "(string \<Rightarrow> ptr list option \<Rightarrow> nat \<Rightarrow> ptr list option \<Rightarrow> nat \<Rightarrow> (ptr, 's) ecall) \<Rightarrow>
   string \<Rightarrow> GroupBy list \<Rightarrow> AggFunc list \<Rightarrow> 's \<Rightarrow>
   ((exn + Aggregate) \<times> GroupBy list \<times> AggFunc list) \<times> 's" where
  "Aggregate_build aggregate_new agg_id groupbys funcs s =
     (let gb_count = length groupbys;
          fn_count = length funcs;
          (gb_ptrs, groupbys') = fill_groupbys groupbys;
          (fn_ptrs, funcs') = fill_funcs funcs;
          gb_arr = (if gb_count \<noteq> 0 then Some gb_ptrs else None);
          fn_arr = (if fn_count \<noteq> 0 then Some fn_ptrs else None)
      in case aggregate_new (to_cstr agg_id) gb_arr gb_count fn_arr fn_count s of
           ((agg, err), s') \<Rightarrow>
             (case raise_if_err err of
                Inl x \<Rightarrow> ((Inl x, groupbys', funcs'), s')
              | Inr u \<Rightarrow>
                  if agg = NULL
                  then ((Inl (FlintDBError ''aggregate_new returned NULL''), groupbys', funcs'), s')
                  else ((Inr \<lparr>aggregate_agg = agg\<rparr>, groupbys', funcs'), s')))"

text \<open>The argument of \<^verbatim>\<open>Aggregate.row\<close> is a \<^verbatim>\<open>Row\<close> or a raw cffi pointer.\<close>

datatype row_arg = RowObj Row | CData ptr

definition Aggregate_row ::
  "(ptr \<Rightarrow> ptr \<Rightarrow> (unit, 's) ecall) \<Rightarrow> Aggregate \<Rightarrow> row_arg \<Rightarrow> 's \<Rightarrow> (exn + unit) \<times> 's" where
  "Aggregate_row row_fn self r s =
     (let p = (case r of RowObj x \<Rightarrow> Row_ptr x | CData c \<Rightarrow> c)
      in case row_fn (aggregate_agg self) p s of
           ((u, err), s') \<Rightarrow> (raise_if_err err, s'))"

text \<open>
  The loop of \<^verbatim>\<open>compute\<close> over \<^verbatim>\<open>range(int(n))\<close>: \<^verbatim>\<open>rows[i]\<close> is read from the engine's
  output array and wrapped as an owned row unless it is null.
\<close>

fun collect_rows :: "(nat \<Rightarrow> ptr) \<Rightarrow> nat list \<Rightarrow> Row list" where
  "collect_rows rows [] = []"
| "collect_rows rows (i # is) =
     (if rows i \<noteq> NULL then Row_owned (rows i) # collect_rows rows is
      else collect_rows rows is)"

text \<open>
  \<^verbatim>\<open>compute\<close>: the engine returns the count \<open>n\<close> and writes the address of its output
  array to \<^verbatim>\<open>out[0]\<close>; \<open>rows\<close> is the memory behind that address, read by index. The
  array is released with libc's \<^verbatim>\<open>free\<close> after the loop.
\<close>

definition Aggregate_compute ::
  "(ptr \<Rightarrow> (int \<times> ptr \<times> (nat \<Rightarrow> ptr), 's) ecall) \<Rightarrow> (ptr \<Rightarrow> 's \<Rightarrow> 's) \<Rightarrow>
   Aggregate \<Rightarrow> 's \<Rightarrow> (exn + Row list) \<times> 's" where
  "Aggregate_compute compute_fn libc_free self s =
     (case compute_fn (aggregate_agg self) s of
        (((n, out0, rows), err), s') \<Rightarrow>
          (case raise_if_err err of
             Inl x \<Rightarrow> (Inl x, s')
           | Inr u \<Rightarrow>
               if n \<le> 0 \<or> out0 = NULL then (Inr [], s')
               else (Inr (collect_rows rows [0..<nat n]), libc_free out0 s')))"

definition Aggregate_close :: "(ptr \<Rightarrow> 's \<Rightarrow> 's) \<Rightarrow> Aggregate \<Rightarrow> 's \<Rightarrow> Aggregate \<times> 's" where
  "Aggregate_close free_fn self s =
     (if aggregate_agg self \<noteq> NULL
      then (self\<lparr>aggregate_agg := NULL\<rparr>, free_fn (aggregate_agg self) s)
      else (self, s))"

definition SqlResult_close :: "(ptr \<Rightarrow> 's \<Rightarrow> 's) \<Rightarrow> SqlResult \<Rightarrow> 's \<Rightarrow> SqlResult \<times> 's" where
  "SqlResult_close close_fn self s =
     (if sqlresult_res self \<noteq> NULL
      then (self\<lparr>sqlresult_res := NULL\<rparr>, close_fn (sqlresult_res self) s)
      else (self, s))"

section \<open>Properties\<close>

text \<open>
  The error channel is the only source of \<^verbatim>\<open>FlintDBError\<close>: the method raises exactly
  when the engine's reply has the error slot set, with the engine's message, and returns
  normally exactly when the slot is empty.
\<close>

definition error_channel_only :: "exn + 'a \<Rightarrow> ('b \<times> errp) \<times> 's \<Rightarrow> bool" where
  "error_channel_only res rep =
     (raises_FlintDBError res = (err_of rep \<noteq> None) \<and>
      returns_normally res = (err_of rep = None) \<and>
      (case err_of rep of Some m \<Rightarrow> res = Inl (FlintDBError m) | None \<Rightarrow> True))"

text \<open>
  Whether a method raises \<^verbatim>\<open>FlintDBError\<close> is decided by the error descriptor alone: it
  raises exactly when the engine's reply has the slot set, and returns normally exactly
  when the slot is empty.
\<close>

definition descriptor_decides :: "exn + 'a \<Rightarrow> ('b \<times> errp) \<times> 's \<Rightarrow> bool" where
  "descriptor_decides res rep =
     (raises_FlintDBError res = (err_of rep \<noteq> None) \<and>
      returns_normally res = (err_of rep = None))"

text \<open>
  The same with a second source: a return value the method itself rejects (\<open>bad\<close>), also
  when the error slot is empty.
\<close>

definition descriptor_or_guard_decides ::
  "exn + 'a \<Rightarrow> ('b \<times> errp) \<times> 's \<Rightarrow> ('b \<Rightarrow> bool) \<Rightarrow> bool" where
  "descriptor_or_guard_decides res rep bad =
     (raises_FlintDBError res = (err_of rep \<noteq> None \<or> bad (ret_of rep)) \<and>
      returns_normally res = (err_of rep = None \<and> \<not> bad (ret_of rep)))"

text \<open>\<open>n\<close> calls of \<^verbatim>\<open>close()\<close> on one handle, each on the handle the previous call left.\<close>

fun closes :: "nat \<Rightarrow> ('h \<Rightarrow> 's \<Rightarrow> 'h \<times> 's) \<Rightarrow> 'h \<Rightarrow> 's \<Rightarrow> 'h \<times> 's" where
  "closes 0 cl h s = (h, s)"
| "closes (Suc n) cl h s = (case cl h s of (h', s') \<Rightarrow> closes n cl h' s')"

text \<open>
  Counting: with an engine state that is a counter and a close / free routine that
  increments it, the counter after \<open>n\<close> calls of \<^verbatim>\<open>close()\<close> is the number of times the
  routine was invoked.
\<close>

definition count_call :: "ptr \<Rightarrow> nat \<Rightarrow> nat" where
  "count_call p k = Suc k"

definition invocations ::
  "nat \<Rightarrow> ((ptr \<Rightarrow> nat \<Rightarrow> nat) \<Rightarrow> 'h \<Rightarrow> nat \<Rightarrow> 'h \<times> nat) \<Rightarrow> 'h \<Rightarrow> nat" where
  "invocations n close_method h = snd (closes n (close_method count_call) h 0)"


subsection \<open>Engine routines that are not in the sources\<close>

text \<open>
  Modelled from the spec: the engine's \<^verbatim>\<open>next\<close> routine of an ordinal-id cursor, which is
  not in the sources. Spec 4.4: the cursor reaches a single terminal state when
  \<^verbatim>\<open>next()\<close> yields the sentinel (a negative row id), and "repeated calls past terminal
  are a no-op yielding terminal again". The engine state is the list of the row ids the
  scan has still to deliver; no error is reported.
\<close>

definition cursor_i64_next_spec :: "ptr \<Rightarrow> (int, int list) ecall" where
  "cursor_i64_next_spec c ids =
     (case ids of [] \<Rightarrow> ((- 1, None), []) | rowid # rest \<Rightarrow> ((rowid, None), rest))"

text \<open>
  Modelled from the spec: the engine's \<^verbatim>\<open>next\<close> routine of a row cursor, which is not in
  the sources. Spec 4.4 as above, with the null row as the sentinel. The engine state is
  the list of the addresses of the rows the scan has still to deliver.
\<close>

definition cursor_row_next_spec :: "ptr \<Rightarrow> (ptr, ptr list) ecall" where
  "cursor_row_next_spec c rows =
     (case rows of [] \<Rightarrow> ((NULL, None), []) | r # rest \<Rightarrow> ((r, None), rest))"

text \<open>
  Modelled from the spec: the engine's \<^verbatim>\<open>compute\<close> routine of an aggregate, which is not in
  the sources. Spec 4.8: \<^verbatim>\<open>compute()\<close> "emits exactly one output Row per distinct
  GroupKey" and "returns an empty sequence if no rows were ever folded". The engine state
  is the list of the output rows (their addresses), one per group key observed so far; it
  is empty as long as no row has been folded. \<open>arr\<close> is the address at which the engine
  allocates the output array.
\<close>

definition aggregate_compute_spec ::
  "ptr \<Rightarrow> ptr \<Rightarrow> (int \<times> ptr \<times> (nat \<Rightarrow> ptr), ptr list) ecall" where
  "aggregate_compute_spec arr agg groups =
     (if groups = [] then (((0, NULL, \<lambda>i. NULL), None), groups)
      else (((int (length groups), arr, \<lambda>i. if i < length groups then groups ! i else NULL),
             None), groups))"

text \<open>
  Modelled from the spec: the engine's \<^verbatim>\<open>validate\<close> routine of a row, which is not in the
  sources. Spec 3: \<^verbatim>\<open>validate()\<close> "checks every not-null column is non-null and every
  value satisfies its column's size/precision bound"; spec 4.3: it "returns false (not an
  exception) on the first not-null violation or size overflow detected; exposes which
  column failed via an out-of-band error channel". Not an exception: the routine returns
  0 and leaves the error descriptor \<^verbatim>\<open>char **e\<close> empty. Out of band: the name of the
  failing column is kept in the engine state, beside the result. A column has a name, a
  not-null flag and a byte size (0 for unsized kinds); a value is \<open>None\<close> for null or its
  bytes. The engine state maps a row's address to its columns and values and holds the
  column that failed in the last validation.
\<close>

record column =
  col_name :: string
  col_not_null :: bool
  col_bytes :: nat

fun first_violation :: "column list \<Rightarrow> string option list \<Rightarrow> string option" where
  "first_violation [] vals = None"
| "first_violation (c # cs) [] = None"
| "first_violation (c # cs) (v # vals) =
     (if (case v of None \<Rightarrow> col_not_null c | Some b \<Rightarrow> col_bytes c \<noteq> 0 \<and> col_bytes c < length b)
      then Some (col_name c) else first_violation cs vals)"

record vstate =
  vs_rows :: "ptr \<Rightarrow> column list \<times> string option list"
  vs_failed :: "string option"

definition row_validate_spec :: "ptr \<Rightarrow> (int, vstate) ecall" where
  "row_validate_spec r e =
     (case vs_rows e r of
        (cols, vals) \<Rightarrow>
          (case first_violation cols vals of
             None \<Rightarrow> ((1, None), e\<lparr>vs_failed := None\<rparr>)
           | Some name \<Rightarrow> ((0, None), e\<lparr>vs_failed := Some name\<rparr>)))"

text \<open>
  Modelled from the spec: the engine's \<^verbatim>\<open>flintdb_table_drop\<close> and
  \<^verbatim>\<open>flintdb_genericfile_drop\<close>, which are not in the sources. Spec 6: drop "must remove all
  files constituting that table's storage (data + indexes) or report NotFound if none
  exists". The engine state maps a path to the set of existing files that constitute the
  storage at that path. NotFound is reported through the error slot, when the caller
  passed one, and for the table also through the \<^verbatim>\<open>int\<close> result.
\<close>

type_synonym storage = "string \<Rightarrow> string set"

definition table_drop_spec ::
  "string \<Rightarrow> errp option \<Rightarrow> storage \<Rightarrow> (int \<times> errp option) \<times> storage" where
  "table_drop_spec filepath slot fs =
     (if fs filepath = {}
      then ((- 1, (case slot of None \<Rightarrow> None | Some e \<Rightarrow> Some (Some ''NotFound''))), fs)
      else ((0, slot), fs(filepath := {})))"

definition genericfile_drop_spec ::
  "string \<Rightarrow> errp option \<Rightarrow> storage \<Rightarrow> (unit \<times> errp option) \<times> storage" where
  "genericfile_drop_spec filepath slot fs =
     (if fs filepath = {}
      then (((), (case slot of None \<Rightarrow> None | Some e \<Rightarrow> Some (Some ''NotFound''))), fs)
      else (((), slot), fs(filepath := {})))"

text \<open>
  Modelled from the spec: the engine's \<^verbatim>\<open>apply\<close> routine of a table, which is not in the
  sources. Spec 4.5: \<^verbatim>\<open>apply(row, check_dup)\<close> "inserts a new row (assigns and returns a
  fresh row id) or, if \<^verbatim>\<open>check_dup\<close> is set and a primary-key collision is detected,
  fails with DuplicateKey instead of silently upserting"; row ids are "monotonically
  assigned". The engine state holds the stored rows (row id, primary-key value, the rest
  of the row), the next row id to assign, and the row objects by address (primary-key
  value and the rest). Without \<^verbatim>\<open>check_dup\<close> a collision replaces the stored row under its
  row id. The cdef declares the flag as \<^verbatim>\<open>i8 upsert\<close>; the binding passes its
  \<^verbatim>\<open>check_dup\<close> there, and the routine reads it as the spec's \<^verbatim>\<open>check_dup\<close>.
\<close>

record etable =
  et_rows :: "(int \<times> int \<times> string) list"
  et_next :: int
  et_heap :: "ptr \<Rightarrow> int \<times> string"

definition stored_ids :: "etable \<Rightarrow> int set" where
  "stored_ids e = fst ` set (et_rows e)"

definition stored_keys :: "etable \<Rightarrow> int set" where
  "stored_keys e = (\<lambda>(rowid, key, payload). key) ` set (et_rows e)"

text \<open>
  The stored row ids are non-negative and below the next row id to assign, as they are
  in a table filled by \<^verbatim>\<open>apply\<close> from empty.
\<close>

definition et_wf :: "etable \<Rightarrow> bool" where
  "et_wf e = (0 \<le> et_next e \<and> list_all (\<lambda>(rowid, key, payload). 0 \<le> rowid \<and> rowid < et_next e) (et_rows e))"

definition table_apply_spec :: "ptr \<Rightarrow> ptr \<Rightarrow> int \<Rightarrow> (int, etable) ecall" where
  "table_apply_spec t r check_dup e =
     (case et_heap e r of
        (key, payload) \<Rightarrow>
          (case find (\<lambda>(rowid, k, p). k = key) (et_rows e) of
             None \<Rightarrow>
               ((et_next e, None),
                e\<lparr>et_rows := et_rows e @ [(et_next e, key, payload)], et_next := et_next e + 1\<rparr>)
           | Some (rowid, k, p) \<Rightarrow>
               if check_dup \<noteq> 0 then ((- 1, Some ''DuplicateKey''), e)
               else ((rowid, None),
                     e\<lparr>et_rows := map (\<lambda>(i, k', p'). if i = rowid then (i, key, payload)
                                                   else (i, k', p')) (et_rows e)\<rparr>)))"

text \<open>
  A table holding one row (row id 0, key 10), with a row object of the same key at
  address 2 and row objects of key 11 elsewhere.
\<close>

definition example_table :: etable where
  "example_table =
     \<lparr>et_rows = [(0, 10, ''Ann'')], et_next = 1,
      et_heap = (\<lambda>p. if p = 2 then (10, ''Bob'') else (11, ''Cy''))\<rparr>"

text \<open>
  Rows with the columns \<^verbatim>\<open>id\<close> (not null, unsized) and \<^verbatim>\<open>name\<close> (not null, 50 bytes),
  holding the id \<^verbatim>\<open>1\<close> and the given name.
\<close>

definition example_rows :: "string option \<Rightarrow> vstate" where
  "example_rows name =
     \<lparr>vs_rows = (\<lambda>p. ([\<lparr>col_name = ''id'', col_not_null = True, col_bytes = 0\<rparr>,
                         \<lparr>col_name = ''name'', col_not_null = True, col_bytes = 50\<rparr>],
                        [Some ''1'', name])),
      vs_failed = None\<rparr>"

section \<open>Theorems\<close>

subsection \<open>Helper lemmas\<close>

lemmas reply_defs = raises_FlintDBError_def returns_normally_def err_of_def ret_of_def
  raise_if_err_def

lemma closes_fixed:
  assumes "\<And>s. cl h s = (h, s)"
  shows "closes n cl h s = (h, s)"
  using assms by (induction n arbitrary: s) auto

lemma closes_once:
  assumes "\<And>t. cl (fst (cl h s)) t = (fst (cl h s), t)"
  shows "closes (Suc n) cl h s = cl h s"
proof -
  obtain h' s' where c: "cl h s = (h', s')" by (cases "cl h s")
  with assms have "\<And>t. cl h' t = (h', t)" by simp
  then have "closes n cl h' s' = (h', s')" by (rule closes_fixed)
  with c show ?thesis by simp
qed

lemma invocations_le_1:
  assumes again: "\<And>s t. cl count_call (fst (cl count_call h s)) t = (fst (cl count_call h s), t)"
    and once: "snd (cl count_call h 0) \<le> 1"
  shows "invocations n cl h \<le> 1"
proof (cases n)
  case 0
  then show ?thesis by (simp add: invocations_def)
next
  case (Suc m)
  have "closes (Suc m) (cl count_call) h 0 = cl count_call h 0"
    by (rule closes_once) (rule again)
  with once Suc show ?thesis by (simp add: invocations_def)
qed

lemma invocations_Suc:
  assumes again: "\<And>s t. cl count_call (fst (cl count_call h s)) t = (fst (cl count_call h s), t)"
  shows "invocations (Suc n) cl h = snd (cl count_call h 0)"
proof -
  have "closes (Suc n) (cl count_call) h 0 = cl count_call h 0"
    by (rule closes_once) (rule again)
  then show ?thesis by (simp add: invocations_def)
qed

lemma Row_close_again:
  "Row_close f (fst (Row_close f h s)) t = (fst (Row_close f h s), t)"
  by (simp add: Row_close_def NULL_def Let_def)

lemma Meta_close_again:
  "Meta_close f (fst (Meta_close f h s)) t = (fst (Meta_close f h s), t)"
  by (simp add: Meta_close_def NULL_def)

lemma CursorI64_close_again:
  "CursorI64_close f (fst (CursorI64_close f h s)) t = (fst (CursorI64_close f h s), t)"
  by (simp add: CursorI64_close_def NULL_def)

lemma CursorRow_close_again:
  "CursorRow_close f (fst (CursorRow_close f h s)) t = (fst (CursorRow_close f h s), t)"
  by (simp add: CursorRow_close_def NULL_def)

lemma Table_close_again:
  "Table_close f (fst (Table_close f h s)) t = (fst (Table_close f h s), t)"
  by (simp add: Table_close_def NULL_def)

lemma GenericFile_close_again:
  "GenericFile_close f (fst (GenericFile_close f h s)) t = (fst (GenericFile_close f h s), t)"
  by (simp add: GenericFile_close_def NULL_def)

lemma FileSort_close_again:
  "FileSort_close f (fst (FileSort_close f h s)) t = (fst (FileSort_close f h s), t)"
  by (simp add: FileSort_close_def NULL_def)

lemma GroupBy_close_again:
  "GroupBy_close f (fst (GroupBy_close f h s)) t = (fst (GroupBy_close f h s), t)"
  by (auto simp: GroupBy_close_def NULL_def)

lemma AggFunc_close_again:
  "AggFunc_close f (fst (AggFunc_close f h s)) t = (fst (AggFunc_close f h s), t)"
  by (auto simp: AggFunc_close_def NULL_def)

lemma Aggregate_close_again:
  "Aggregate_close f (fst (Aggregate_close f h s)) t = (fst (Aggregate_close f h s), t)"
  by (simp add: Aggregate_close_def NULL_def)

lemma SqlResult_close_again:
  "SqlResult_close f (fst (SqlResult_close f h s)) t = (fst (SqlResult_close f h s), t)"
  by (simp add: SqlResult_close_def NULL_def)

lemma Row_close_at_most_once: "invocations n Row_close h \<le> 1"
  by (rule invocations_le_1) (simp_all add: Row_close_again Row_close_def count_call_def Let_def)

lemma Meta_close_at_most_once: "invocations n Meta_close h \<le> 1"
  by (rule invocations_le_1) (simp_all add: Meta_close_again Meta_close_def count_call_def)

lemma CursorI64_close_at_most_once: "invocations n CursorI64_close h \<le> 1"
  by (rule invocations_le_1)
    (simp_all add: CursorI64_close_again CursorI64_close_def count_call_def)

lemma CursorRow_close_at_most_once: "invocations n CursorRow_close h \<le> 1"
  by (rule invocations_le_1)
    (simp_all add: CursorRow_close_again CursorRow_close_def count_call_def)

lemma Table_close_at_most_once: "invocations n Table_close h \<le> 1"
  by (rule invocations_le_1) (simp_all add: Table_close_again Table_close_def count_call_def)

lemma GenericFile_close_at_most_once: "invocations n GenericFile_close h \<le> 1"
  by (rule invocations_le_1)
    (simp_all add: GenericFile_close_again GenericFile_close_def count_call_def)

lemma FileSort_close_at_most_once: "invocations n FileSort_close h \<le> 1"
  by (rule invocations_le_1)
    (simp_all add: FileSort_close_again FileSort_close_def count_call_def)

lemma GroupBy_close_at_most_once: "invocations n GroupBy_close h \<le> 1"
  by (rule invocations_le_1)
    (simp_all add: GroupBy_close_again GroupBy_close_def count_call_def)

lemma AggFunc_close_at_most_once: "invocations n AggFunc_close h \<le> 1"
  by (rule invocations_le_1)
    (simp_all add: AggFunc_close_again AggFunc_close_def count_call_def)

lemma Aggregate_close_at_most_once: "invocations n Aggregate_close h \<le> 1"
  by (rule invocations_le_1)
    (simp_all add: Aggregate_close_again Aggregate_close_def count_call_def)

lemma SqlResult_close_at_most_once: "invocations n SqlResult_close h \<le> 1"
  by (rule invocations_le_1)
    (simp_all add: SqlResult_close_again SqlResult_close_def count_call_def)

subsection \<open>The error channel\<close>


lemma Meta_add_column_descriptor:
  "(fits_enum vt \<and> fits_i32 bytes \<and> fits_i16 prec \<and> fits_enum nullspec \<longrightarrow>
     descriptor_decides (fst (Meta_add_column f1 m name vt bytes prec nullspec dflt comment s))
     (f1 (meta_m m) (c_str (to_cstr name)) vt bytes prec nullspec
        (c_str (to_cstr dflt)) (c_str (to_cstr comment)) s))"
  by (auto simp: descriptor_decides_def reply_defs Meta_add_column_def Let_def
      split: prod.splits option.splits)

lemma Meta_add_column_overflow:
  "(\<not> (fits_enum vt \<and> fits_i32 bytes \<and> fits_i16 prec \<and> fits_enum nullspec) \<longrightarrow>
     Meta_add_column f1 m name vt bytes prec nullspec dflt comment s = (Inl OverflowError, s))"
  by (simp add: Meta_add_column_def)

lemma Meta_add_index_descriptor:
  "(length keys < 65536 \<longrightarrow>
     descriptor_decides (fst (Meta_add_index f2 m name algorithm keys s))
     (f2 (meta_m m) (to_cstr name) (case algorithm of None \<Rightarrow> None | Some a \<Rightarrow> Some (to_cstr a))
        (add_index_keys keys) (length keys) s))"
  by (auto simp: descriptor_decides_def reply_defs Meta_add_index_def Let_def
      split: prod.splits option.splits)

lemma Table_delete_at_descriptor:
  "(fits_i64 rowid \<longrightarrow>
     descriptor_decides (fst (Table_delete_at f3 tbl rowid s))
     (f3 (table_t tbl) rowid s))"
  by (auto simp: descriptor_decides_def reply_defs Table_delete_at_def Let_def
      split: prod.splits option.splits)

lemma Table_delete_at_overflow:
  "(\<not> (fits_i64 rowid) \<longrightarrow>
     Table_delete_at f3 tbl rowid s = (Inl OverflowError, s))"
  by (simp add: Table_delete_at_def)

lemma GenericFile_write_descriptor:
  "descriptor_decides (fst (GenericFile_write f4 gf row s))
     (f4 (genericfile_g gf) (Row_ptr row) s)"
  by (auto simp: descriptor_decides_def reply_defs GenericFile_write_def Let_def
      split: prod.splits option.splits)

lemma FileSort_add_descriptor:
  "descriptor_decides (fst (FileSort_add f5 fs row s))
     (f5 (filesort_fs fs) (Row_ptr row) s)"
  by (auto simp: descriptor_decides_def reply_defs FileSort_add_def Let_def
      split: prod.splits option.splits)

lemma FileSort_sort_descriptor:
  "descriptor_decides (fst (FileSort_sort f6 fs compare ctx s))
     (f6 (filesort_fs fs)
        (\<lambda>c a b. let r = compare ctx (Row_borrowed a) (Row_borrowed b)
                 in if fits_i32 r then r else 0) NULL s)"
  by (auto simp: descriptor_decides_def reply_defs FileSort_sort_def Let_def
      split: prod.splits option.splits)

lemma Aggregate_row_descriptor:
  "descriptor_decides (fst (Aggregate_row f7 agg r s))
     (f7 (aggregate_agg agg) (case r of RowObj x \<Rightarrow> Row_ptr x | CData c \<Rightarrow> c) s)"
  by (auto simp: descriptor_decides_def reply_defs Aggregate_row_def Let_def
      split: prod.splits option.splits)

lemma Aggregate_compute_descriptor:
  "descriptor_decides (fst (Aggregate_compute f8 libc_free agg s))
     (f8 (aggregate_agg agg) s)"
  by (auto simp: descriptor_decides_def reply_defs Aggregate_compute_def Let_def
      split: prod.splits option.splits)

lemma Row_set_string_descriptor:
  "(fits_u16 idx \<longrightarrow>
     descriptor_decides (fst (Row_set_string f9 row idx str s))
     (f9 (row_r row) (nat idx) (c_str (to_cstr str)) s))"
  by (auto simp: descriptor_decides_def reply_defs Row_set_string_def Let_def
      split: prod.splits option.splits)

lemma Row_set_string_overflow:
  "(\<not> (fits_u16 idx) \<longrightarrow>
     Row_set_string f9 row idx str s = (Inl OverflowError, s))"
  by (simp add: Row_set_string_def)

lemma Row_set_i32_descriptor:
  "(fits_u16 idx \<and> fits_i32 v \<longrightarrow>
     descriptor_decides (fst (Row_set_i32 f10 row idx v s))
     (f10 (row_r row) (nat idx) v s))"
  by (auto simp: descriptor_decides_def reply_defs Row_set_i32_def Let_def
      split: prod.splits option.splits)

lemma Row_set_i32_overflow:
  "(\<not> (fits_u16 idx \<and> fits_i32 v) \<longrightarrow>
     Row_set_i32 f10 row idx v s = (Inl OverflowError, s))"
  by (simp add: Row_set_i32_def)

lemma Row_set_i64_descriptor:
  "(fits_u16 idx \<and> fits_i64 v \<longrightarrow>
     descriptor_decides (fst (Row_set_i64 f11 row idx v s))
     (f11 (row_r row) (nat idx) v s))"
  by (auto simp: descriptor_decides_def reply_defs Row_set_i64_def Let_def
      split: prod.splits option.splits)

lemma Row_set_i64_overflow:
  "(\<not> (fits_u16 idx \<and> fits_i64 v) \<longrightarrow>
     Row_set_i64 f11 row idx v s = (Inl OverflowError, s))"
  by (simp add: Row_set_i64_def)

lemma Row_get_i32_descriptor:
  "(fits_u16 idx \<longrightarrow>
     descriptor_decides (fst (Row_get_i32 f13 row idx s))
     (f13 (row_r row) (nat idx) s))"
  by (auto simp: descriptor_decides_def reply_defs Row_get_i32_def Let_def
      split: prod.splits option.splits)

lemma Row_get_i32_overflow:
  "(\<not> (fits_u16 idx) \<longrightarrow>
     Row_get_i32 f13 row idx s = (Inl OverflowError, s))"
  by (simp add: Row_get_i32_def)

lemma Row_set_f64_descriptor:
  "(to_float x = Inr d \<and> fits_u16 idx \<longrightarrow>
     descriptor_decides (fst (Row_set_f64 to_float f12 row idx x s))
     (f12 (row_r row) (nat idx) d s))"
  by (auto simp: descriptor_decides_def reply_defs Row_set_f64_def Let_def
      split: prod.splits option.splits)

lemma Row_set_f64_overflow:
  "(to_float x = Inr d \<and> \<not> fits_u16 idx \<longrightarrow>
     Row_set_f64 to_float f12 row idx x s = (Inl OverflowError, s))"
  by (simp add: Row_set_f64_def)

lemma Row_set_f64_float:
  "(to_float x = Inl ex \<longrightarrow>
     Row_set_f64 to_float f12 row idx x s = (Inl ex, s))"
  by (simp add: Row_set_f64_def)

lemma Table_apply_descriptor:
  "descriptor_or_guard_decides (fst (Table_apply g1 tbl row check_dup s))
     (g1 (table_t tbl) (Row_ptr row) (if check_dup then 1 else 0) s) (\<lambda>rowid. rowid < 0)"
  by (auto simp: descriptor_or_guard_decides_def reply_defs Table_apply_def Let_def
      split: prod.splits option.splits)

lemma Table_find_descriptor:
  "descriptor_or_guard_decides (fst (Table_find g2 tbl wh s))
     (g2 (table_t tbl) (c_str (to_cstr wh)) s) (\<lambda>c. c = NULL)"
  by (auto simp: descriptor_or_guard_decides_def reply_defs Table_find_def Let_def
      split: prod.splits option.splits)

lemma Table_read_descriptor:
  "(fits_i64 rowid \<longrightarrow>
     descriptor_or_guard_decides (fst (Table_read g3 tbl rowid s))
     (g3 (table_t tbl) rowid s) (\<lambda>r. r = NULL))"
  by (auto simp: descriptor_or_guard_decides_def reply_defs Table_read_def Let_def
      split: prod.splits option.splits)

lemma Table_read_overflow:
  "(\<not> (fits_i64 rowid) \<longrightarrow>
     Table_read g3 tbl rowid s = (Inl OverflowError, s))"
  by (simp add: Table_read_def)

lemma FileSort_read_descriptor:
  "(fits_i64 i \<longrightarrow>
     descriptor_or_guard_decides (fst (FileSort_read g4 fs i s))
     (g4 (filesort_fs fs) i s) (\<lambda>r. r = NULL))"
  by (auto simp: descriptor_or_guard_decides_def reply_defs FileSort_read_def Let_def
      split: prod.splits option.splits)

lemma FileSort_read_overflow:
  "(\<not> (fits_i64 i) \<longrightarrow>
     FileSort_read g4 fs i s = (Inl OverflowError, s))"
  by (simp add: FileSort_read_def)

text \<open>
  Claim C1, as the code has it. When the integer arguments fit the C types of the engine
  routine, so that the engine is entered: \<^verbatim>\<open>Meta.add_column\<close>, \<^verbatim>\<open>Meta.add_index\<close>,
  \<^verbatim>\<open>Table.delete_at\<close>, \<^verbatim>\<open>GenericFile.write\<close>, \<^verbatim>\<open>FileSort.add\<close>, \<^verbatim>\<open>FileSort.sort\<close>,
  \<^verbatim>\<open>Aggregate.row\<close>, \<^verbatim>\<open>Aggregate.compute\<close> and the \<^verbatim>\<open>Row\<close> setters and getters raise
  \<^verbatim>\<open>FlintDBError\<close> exactly when the engine sets the error descriptor, and return normally
  exactly when it leaves it empty. \<^verbatim>\<open>Table.apply\<close> also raises \<^verbatim>\<open>FlintDBError\<close> when the engine
  returns a negative row id, and \<^verbatim>\<open>Table.find\<close>, \<^verbatim>\<open>Table.read\<close> and \<^verbatim>\<open>FileSort.read\<close> also
  raise it when the engine returns a null pointer, although the error channel is empty.
  An integer argument that does not fit its C type raises \<^verbatim>\<open>OverflowError\<close> and leaves the
  engine untouched; an error of \<^verbatim>\<open>float(value)\<close> in \<^verbatim>\<open>set_f64\<close> is raised as it is.
\<close>

theorem error_channel_or_own_guard:
  "(fits_enum vt \<and> fits_i32 bytes \<and> fits_i16 prec \<and> fits_enum nullspec \<longrightarrow>
     descriptor_decides (fst (Meta_add_column f1 m name vt bytes prec nullspec dflt comment s))
     (f1 (meta_m m) (c_str (to_cstr name)) vt bytes prec nullspec
        (c_str (to_cstr dflt)) (c_str (to_cstr comment)) s)) \<and>
   (\<not> (fits_enum vt \<and> fits_i32 bytes \<and> fits_i16 prec \<and> fits_enum nullspec) \<longrightarrow>
     Meta_add_column f1 m name vt bytes prec nullspec dflt comment s = (Inl OverflowError, s)) \<and>
   (length keys < 65536 \<longrightarrow>
     descriptor_decides (fst (Meta_add_index f2 m name algorithm keys s))
     (f2 (meta_m m) (to_cstr name) (case algorithm of None \<Rightarrow> None | Some a \<Rightarrow> Some (to_cstr a))
        (add_index_keys keys) (length keys) s)) \<and>
   (fits_i64 rowid \<longrightarrow>
     descriptor_decides (fst (Table_delete_at f3 tbl rowid s))
     (f3 (table_t tbl) rowid s)) \<and>
   (\<not> (fits_i64 rowid) \<longrightarrow>
     Table_delete_at f3 tbl rowid s = (Inl OverflowError, s)) \<and>
   descriptor_decides (fst (GenericFile_write f4 gf row s))
     (f4 (genericfile_g gf) (Row_ptr row) s) \<and>
   descriptor_decides (fst (FileSort_add f5 fs row s))
     (f5 (filesort_fs fs) (Row_ptr row) s) \<and>
   descriptor_decides (fst (FileSort_sort f6 fs compare ctx s))
     (f6 (filesort_fs fs)
        (\<lambda>c a b. let r = compare ctx (Row_borrowed a) (Row_borrowed b)
                 in if fits_i32 r then r else 0) NULL s) \<and>
   descriptor_decides (fst (Aggregate_row f7 agg r s))
     (f7 (aggregate_agg agg) (case r of RowObj x \<Rightarrow> Row_ptr x | CData c \<Rightarrow> c) s) \<and>
   descriptor_decides (fst (Aggregate_compute f8 libc_free agg s))
     (f8 (aggregate_agg agg) s) \<and>
   (fits_u16 idx \<longrightarrow>
     descriptor_decides (fst (Row_set_string f9 row idx str s))
     (f9 (row_r row) (nat idx) (c_str (to_cstr str)) s)) \<and>
   (\<not> (fits_u16 idx) \<longrightarrow>
     Row_set_string f9 row idx str s = (Inl OverflowError, s)) \<and>
   (fits_u16 idx \<and> fits_i32 v \<longrightarrow>
     descriptor_decides (fst (Row_set_i32 f10 row idx v s))
     (f10 (row_r row) (nat idx) v s)) \<and>
   (\<not> (fits_u16 idx \<and> fits_i32 v) \<longrightarrow>
     Row_set_i32 f10 row idx v s = (Inl OverflowError, s)) \<and>
   (fits_u16 idx \<and> fits_i64 v \<longrightarrow>
     descriptor_decides (fst (Row_set_i64 f11 row idx v s))
     (f11 (row_r row) (nat idx) v s)) \<and>
   (\<not> (fits_u16 idx \<and> fits_i64 v) \<longrightarrow>
     Row_set_i64 f11 row idx v s = (Inl OverflowError, s)) \<and>
   (fits_u16 idx \<longrightarrow>
     descriptor_decides (fst (Row_get_i32 f13 row idx s))
     (f13 (row_r row) (nat idx) s)) \<and>
   (\<not> (fits_u16 idx) \<longrightarrow>
     Row_get_i32 f13 row idx s = (Inl OverflowError, s)) \<and>
   (to_float x = Inr d \<and> fits_u16 idx \<longrightarrow>
     descriptor_decides (fst (Row_set_f64 to_float f12 row idx x s))
     (f12 (row_r row) (nat idx) d s)) \<and>
   (to_float x = Inr d \<and> \<not> fits_u16 idx \<longrightarrow>
     Row_set_f64 to_float f12 row idx x s = (Inl OverflowError, s)) \<and>
   (to_float x = Inl ex \<longrightarrow>
     Row_set_f64 to_float f12 row idx x s = (Inl ex, s)) \<and>
   descriptor_or_guard_decides (fst (Table_apply g1 tbl row check_dup s))
     (g1 (table_t tbl) (Row_ptr row) (if check_dup then 1 else 0) s) (\<lambda>rowid. rowid < 0) \<and>
   descriptor_or_guard_decides (fst (Table_find g2 tbl wh s))
     (g2 (table_t tbl) (c_str (to_cstr wh)) s) (\<lambda>c. c = NULL) \<and>
   (fits_i64 rowid \<longrightarrow>
     descriptor_or_guard_decides (fst (Table_read g3 tbl rowid s))
     (g3 (table_t tbl) rowid s) (\<lambda>r. r = NULL)) \<and>
   (\<not> (fits_i64 rowid) \<longrightarrow>
     Table_read g3 tbl rowid s = (Inl OverflowError, s)) \<and>
   (fits_i64 i \<longrightarrow>
     descriptor_or_guard_decides (fst (FileSort_read g4 fs i s))
     (g4 (filesort_fs fs) i s) (\<lambda>r. r = NULL)) \<and>
   (\<not> (fits_i64 i) \<longrightarrow>
     FileSort_read g4 fs i s = (Inl OverflowError, s))"
  apply (intro conjI)
  apply (rule Meta_add_column_descriptor)
  apply (rule Meta_add_column_overflow)
  apply (rule Meta_add_index_descriptor)
  apply (rule Table_delete_at_descriptor)
  apply (rule Table_delete_at_overflow)
  apply (rule GenericFile_write_descriptor)
  apply (rule FileSort_add_descriptor)
  apply (rule FileSort_sort_descriptor)
  apply (rule Aggregate_row_descriptor)
  apply (rule Aggregate_compute_descriptor)
  apply (rule Row_set_string_descriptor)
  apply (rule Row_set_string_overflow)
  apply (rule Row_set_i32_descriptor)
  apply (rule Row_set_i32_overflow)
  apply (rule Row_set_i64_descriptor)
  apply (rule Row_set_i64_overflow)
  apply (rule Row_get_i32_descriptor)
  apply (rule Row_get_i32_overflow)
  apply (rule Row_set_f64_descriptor)
  apply (rule Row_set_f64_overflow)
  apply (rule Row_set_f64_float)
  apply (rule Table_apply_descriptor)
  apply (rule Table_find_descriptor)
  apply (rule Table_read_descriptor)
  apply (rule Table_read_overflow)
  apply (rule FileSort_read_descriptor)
  apply (rule FileSort_read_overflow)
  done

text \<open>
  Claim C1 as stated fails for \<^verbatim>\<open>Table.apply\<close>: an engine that returns row id \<open>-1\<close> and
  leaves the error descriptor empty makes the method raise
  \<^verbatim>\<open>FlintDBError("apply returned < 0")\<close>.
\<close>

theorem Table_apply_raises_without_descriptor:
  "err_of ((\<lambda>t r u s. ((- 1 :: int, None), s)) (1 :: ptr) (2 :: ptr) (0 :: int) ()) = None \<and>
   fst (Table_apply (\<lambda>t r u s. ((- 1, None), s)) \<lparr>table_t = 1\<rparr> (Row_owned 2) False ())
     = Inl (FlintDBError ''apply returned < 0'') \<and>
   \<not> error_channel_only
       (fst (Table_apply (\<lambda>t r u s. ((- 1, None), s)) \<lparr>table_t = 1\<rparr> (Row_owned 2) False ()))
       ((\<lambda>t r u s. ((- 1 :: int, None), s)) (1 :: ptr) (2 :: ptr) (0 :: int) ())"
  by (simp add: error_channel_only_def reply_defs Table_apply_def)

text \<open>
  An instance of the theorem on the error channel: \<^verbatim>\<open>Table.apply\<close> raises on a negative
  row id with an empty error descriptor; \<^verbatim>\<open>Table.delete_at\<close> returns normally on an empty
  descriptor and raises on a set one; \<^verbatim>\<open>set_i32\<close> stores the largest \<^verbatim>\<open>i32\<close> and raises
  \<^verbatim>\<open>OverflowError\<close> on the next integer.
\<close>

theorem error_channel_or_own_guard_witness:
  "raises_FlintDBError
     (fst (Table_apply (\<lambda>t r u s. ((- 1, None), s)) \<lparr>table_t = 1\<rparr> (Row_owned 2) True ())) \<and>
   returns_normally
     (fst (Table_delete_at (\<lambda>t r s. ((r, None), s)) \<lparr>table_t = 1\<rparr> 5 ())) \<and>
   raises_FlintDBError
     (fst (Table_delete_at (\<lambda>t r s. ((- 1, Some ''NotFound''), s)) \<lparr>table_t = 1\<rparr> 5 ())) \<and>
   returns_normally
     (fst (Row_set_i32 (\<lambda>r i v s. (((), None), s)) (Row_owned 2) 0 2147483647 ())) \<and>
   Row_set_i32 (\<lambda>r i v s. (((), None), s)) (Row_owned 2) 0 2147483648 () = (Inl OverflowError, ())"
proof -
  note a = error_channel_or_own_guard [where ?g1.0 = "\<lambda>t r u s. ((- 1, None), s)"
      and tbl = "\<lparr>table_t = 1\<rparr>" and row = "Row_owned 2" and check_dup = True and s = "()",
      THEN conjunct2, THEN conjunct2, THEN conjunct2, THEN conjunct2, THEN conjunct2, THEN conjunct2, THEN conjunct2, THEN conjunct2, THEN conjunct2, THEN conjunct2, THEN conjunct2, THEN conjunct2, THEN conjunct2, THEN conjunct2, THEN conjunct2, THEN conjunct2, THEN conjunct2, THEN conjunct2, THEN conjunct2, THEN conjunct2, THEN conjunct2, THEN conjunct1]
  note b = error_channel_or_own_guard [where ?f3.0 = "\<lambda>t r s. ((r, None), s)"
      and tbl = "\<lparr>table_t = 1\<rparr>" and rowid = 5 and s = "()",
      THEN conjunct2, THEN conjunct2, THEN conjunct2, THEN conjunct1]
  note c = error_channel_or_own_guard [where ?f3.0 = "\<lambda>t r s. ((- 1, Some ''NotFound''), s)"
      and tbl = "\<lparr>table_t = 1\<rparr>" and rowid = 5 and s = "()",
      THEN conjunct2, THEN conjunct2, THEN conjunct2, THEN conjunct1]
  note d = error_channel_or_own_guard [where ?f10.0 = "\<lambda>r i v s. (((), None), s)"
      and row = "Row_owned 2" and idx = 0 and v = 2147483647 and s = "()",
      THEN conjunct2, THEN conjunct2, THEN conjunct2, THEN conjunct2, THEN conjunct2, THEN conjunct2, THEN conjunct2, THEN conjunct2, THEN conjunct2, THEN conjunct2, THEN conjunct2, THEN conjunct2, THEN conjunct1]
  note e = error_channel_or_own_guard [where ?f10.0 = "\<lambda>r i v s. (((), None), s)"
      and row = "Row_owned 2" and idx = 0 and v = 2147483648 and s = "()",
      THEN conjunct2, THEN conjunct2, THEN conjunct2, THEN conjunct2, THEN conjunct2, THEN conjunct2, THEN conjunct2, THEN conjunct2, THEN conjunct2, THEN conjunct2, THEN conjunct2, THEN conjunct2, THEN conjunct2, THEN conjunct1]
  have r: "fits_i64 5" "fits_u16 0" "fits_i32 2147483647" "\<not> fits_i32 2147483648"
    by (simp_all add: fits_i64_def fits_u16_def fits_i32_def)
  from a b c d e r show ?thesis
    by (simp add: descriptor_or_guard_decides_def descriptor_decides_def reply_defs)
qed

subsection \<open>Closing handles\<close>

text \<open>
  Claim C7. \<^verbatim>\<open>close()\<close> is idempotent on every handle type of the binding (\<^verbatim>\<open>CursorI64\<close>,
  \<^verbatim>\<open>CursorRow\<close>, \<^verbatim>\<open>Table\<close>, \<^verbatim>\<open>GenericFile\<close>, \<^verbatim>\<open>FileSort\<close>, \<^verbatim>\<open>Meta\<close>, \<^verbatim>\<open>Row\<close>, and also
  \<^verbatim>\<open>GroupBy\<close>, \<^verbatim>\<open>AggFunc\<close>, \<^verbatim>\<open>Aggregate\<close>, \<^verbatim>\<open>SqlResult\<close>): a close of an already closed
  handle, in whatever state \<open>t\<close> the engine is by then, changes neither the handle nor the
  engine state, whatever the engine's close routine does; and over any number \<open>n\<close> of
  closes of one handle the engine's close / free routine is invoked at most once.
\<close>

theorem close_idempotent:
  "CursorI64_close c1 (fst (CursorI64_close c1 h1 s)) t = (fst (CursorI64_close c1 h1 s), t) \<and>
   invocations n CursorI64_close h1 \<le> 1 \<and>
   CursorRow_close c2 (fst (CursorRow_close c2 h2 s)) t = (fst (CursorRow_close c2 h2 s), t) \<and>
   invocations n CursorRow_close h2 \<le> 1 \<and>
   Table_close c3 (fst (Table_close c3 h3 s)) t = (fst (Table_close c3 h3 s), t) \<and>
   invocations n Table_close h3 \<le> 1 \<and>
   GenericFile_close c4 (fst (GenericFile_close c4 h4 s)) t = (fst (GenericFile_close c4 h4 s), t) \<and>
   invocations n GenericFile_close h4 \<le> 1 \<and>
   FileSort_close c5 (fst (FileSort_close c5 h5 s)) t = (fst (FileSort_close c5 h5 s), t) \<and>
   invocations n FileSort_close h5 \<le> 1 \<and>
   Meta_close c6 (fst (Meta_close c6 h6 s)) t = (fst (Meta_close c6 h6 s), t) \<and>
   invocations n Meta_close h6 \<le> 1 \<and>
   Row_close c7 (fst (Row_close c7 h7 s)) t = (fst (Row_close c7 h7 s), t) \<and>
   invocations n Row_close h7 \<le> 1 \<and>
   GroupBy_close c8 (fst (GroupBy_close c8 h8 s)) t = (fst (GroupBy_close c8 h8 s), t) \<and>
   invocations n GroupBy_close h8 \<le> 1 \<and>
   AggFunc_close c9 (fst (AggFunc_close c9 h9 s)) t = (fst (AggFunc_close c9 h9 s), t) \<and>
   invocations n AggFunc_close h9 \<le> 1 \<and>
   Aggregate_close c10 (fst (Aggregate_close c10 h10 s)) t = (fst (Aggregate_close c10 h10 s), t) \<and>
   invocations n Aggregate_close h10 \<le> 1 \<and>
   SqlResult_close c11 (fst (SqlResult_close c11 h11 s)) t = (fst (SqlResult_close c11 h11 s), t) \<and>
   invocations n SqlResult_close h11 \<le> 1"
  by (intro conjI) (rule CursorI64_close_again CursorI64_close_at_most_once CursorRow_close_again CursorRow_close_at_most_once Table_close_again Table_close_at_most_once GenericFile_close_again GenericFile_close_at_most_once FileSort_close_again FileSort_close_at_most_once Meta_close_again Meta_close_at_most_once Row_close_again Row_close_at_most_once GroupBy_close_again GroupBy_close_at_most_once AggFunc_close_again AggFunc_close_at_most_once Aggregate_close_again Aggregate_close_at_most_once SqlResult_close_again SqlResult_close_at_most_once)+

subsection \<open>Row ownership\<close>

lemma Row_owned_freed_once:
  assumes "row_r h \<noteq> NULL" and "row_owned h"
  shows "invocations (Suc n) Row_close h = 1"
  using assms
  by (simp add: invocations_Suc [of Row_close, OF Row_close_again] Row_close_def count_call_def)

lemma Row_borrowed_never_freed:
  assumes "\<not> row_owned h"
  shows "invocations n Row_close h = 0"
proof (cases n)
  case 0
  then show ?thesis by (simp add: invocations_def)
next
  case (Suc m)
  with assms show ?thesis
    by (simp add: invocations_Suc [of Row_close, OF Row_close_again] Row_close_def count_call_def)
qed

lemma collect_rows_owned:
  "row \<in> set (collect_rows rows is) \<Longrightarrow> row_owned row \<and> row_r row \<noteq> NULL"
  by (induction "is") (auto simp: Row_owned_def split: if_splits)

lemma FileSort_read_owned:
  "fst (FileSort_read rd fs i s) = Inr row \<Longrightarrow> row_owned row \<and> row_r row \<noteq> NULL"
  by (auto simp: FileSort_read_def raise_if_err_def Row_owned_def
      split: prod.splits option.splits if_splits)

lemma Aggregate_compute_owned:
  "fst (Aggregate_compute cmp lf agg s) = Inr rows \<Longrightarrow> row \<in> set rows \<Longrightarrow>
   row_owned row \<and> row_r row \<noteq> NULL"
  by (auto simp: Aggregate_compute_def raise_if_err_def dest: collect_rows_owned
      split: prod.splits option.splits if_splits)

lemma Table_read_borrowed:
  "fst (Table_read trd tbl rowid s) = Inr row \<Longrightarrow> \<not> row_owned row"
  by (auto simp: Table_read_def raise_if_err_def Row_borrowed_def
      split: prod.splits option.splits if_splits)

lemma CursorRow_next_borrowed:
  "fst (CursorRow_next nxt c s) = Inr (Some row) \<Longrightarrow> \<not> row_owned row"
  by (auto simp: CursorRow_next_def raise_if_err_def Row_borrowed_def
      split: prod.splits option.splits if_splits)

lemma CursorRow_iter_next_Inr:
  "fst (CursorRow_iter_next nxt c s) = Inr row \<Longrightarrow> fst (CursorRow_next nxt c s) = Inr (Some row)"
  by (auto simp: CursorRow_iter_next_def split: prod.splits option.splits sum.splits)

lemma CursorRow_iter_next_borrowed:
  "fst (CursorRow_iter_next nxt c s) = Inr row \<Longrightarrow> \<not> row_owned row"
  by (rule CursorRow_next_borrowed) (rule CursorRow_iter_next_Inr)

lemma Row_close_owned_state:
  "row_owned h \<Longrightarrow> row_r h \<noteq> NULL \<Longrightarrow> snd (Row_close free_fn h t) = free_fn (row_r h) t"
  by (simp add: Row_close_def)

lemma Row_close_borrowed_state:
  "\<not> row_owned h \<Longrightarrow> snd (Row_close free_fn h t) = t"
  by (simp add: Row_close_def)

text \<open>
  Claim C2. A row returned by \<^verbatim>\<open>FileSort.read\<close>, and every row of the list returned by
  \<^verbatim>\<open>Aggregate.compute\<close>, is owned: over any positive number of \<^verbatim>\<open>close()\<close> calls the
  engine's \<^verbatim>\<open>free\<close> is invoked exactly once (so a second close is a no-op), and the first
  close applies \<^verbatim>\<open>free\<close> to the row's pointer. A row returned by \<^verbatim>\<open>Table.read\<close>, by
  \<^verbatim>\<open>CursorRow.next\<close> or by the cursor's \<^verbatim>\<open>__next__\<close> is borrowed: no number of
  \<^verbatim>\<open>close()\<close> calls invokes \<^verbatim>\<open>free\<close>, and the engine state is left as it was.
\<close>

theorem row_ownership:
  "(fst (FileSort_read rd fs i s) = Inr row \<longrightarrow>
      invocations (Suc n) Row_close row = 1 \<and>
      snd (Row_close free_fn row t) = free_fn (row_r row) t) \<and>
   (fst (Aggregate_compute cmp lf agg s) = Inr rows \<longrightarrow>
      (\<forall>row \<in> set rows. invocations (Suc n) Row_close row = 1 \<and>
         snd (Row_close free_fn row t) = free_fn (row_r row) t)) \<and>
   (fst (Table_read trd tbl rowid s) = Inr row \<longrightarrow>
      invocations n Row_close row = 0 \<and> snd (Row_close free_fn row t) = t) \<and>
   (fst (CursorRow_next nxt c s) = Inr (Some row) \<longrightarrow>
      invocations n Row_close row = 0 \<and> snd (Row_close free_fn row t) = t) \<and>
   (fst (CursorRow_iter_next nxt c s) = Inr row \<longrightarrow>
      invocations n Row_close row = 0 \<and> snd (Row_close free_fn row t) = t)"
proof (intro conjI impI ballI)
  assume "fst (FileSort_read rd fs i s) = Inr row"
  then have o: "row_owned row \<and> row_r row \<noteq> NULL" by (rule FileSort_read_owned)
  then show "invocations (Suc n) Row_close row = 1" by (simp add: Row_owned_freed_once)
  from o show "snd (Row_close free_fn row t) = free_fn (row_r row) t"
    by (simp add: Row_close_owned_state)
next
  fix r
  assume "fst (Aggregate_compute cmp lf agg s) = Inr rows" and "r \<in> set rows"
  then have o: "row_owned r \<and> row_r r \<noteq> NULL" by (rule Aggregate_compute_owned)
  then show "invocations (Suc n) Row_close r = 1" by (simp add: Row_owned_freed_once)
  from o show "snd (Row_close free_fn r t) = free_fn (row_r r) t"
    by (simp add: Row_close_owned_state)
next
  assume "fst (Table_read trd tbl rowid s) = Inr row"
  then have b: "\<not> row_owned row" by (rule Table_read_borrowed)
  then show "invocations n Row_close row = 0" by (rule Row_borrowed_never_freed)
  from b show "snd (Row_close free_fn row t) = t" by (rule Row_close_borrowed_state)
next
  assume "fst (CursorRow_next nxt c s) = Inr (Some row)"
  then have b: "\<not> row_owned row" by (rule CursorRow_next_borrowed)
  then show "invocations n Row_close row = 0" by (rule Row_borrowed_never_freed)
  from b show "snd (Row_close free_fn row t) = t" by (rule Row_close_borrowed_state)
next
  assume "fst (CursorRow_iter_next nxt c s) = Inr row"
  then have b: "\<not> row_owned row" by (rule CursorRow_iter_next_borrowed)
  then show "invocations n Row_close row = 0" by (rule Row_borrowed_never_freed)
  from b show "snd (Row_close free_fn row t) = t" by (rule Row_close_borrowed_state)
qed

text \<open>
  An instance of the theorem on row ownership: an engine whose \<^verbatim>\<open>FileSort.read\<close> yields
  the row at address 7, whose \<^verbatim>\<open>compute\<close> yields two entries (a null one and address 8)
  and whose \<^verbatim>\<open>Table.read\<close> and cursor yield the row at address 9.
\<close>

theorem row_ownership_witness:
  "fst (FileSort_read (\<lambda>p i s. ((7, None), s)) \<lparr>filesort_fs = 1\<rparr> 0 ()) = Inr (Row_owned 7) \<and>
   invocations 2 Row_close (Row_owned 7) = 1 \<and>
   fst (Aggregate_compute (\<lambda>p s. (((2, 5, (\<lambda>i. if i = 0 then 0 else 8)), None), s)) (\<lambda>p s. s)
          \<lparr>aggregate_agg = 3\<rparr> ()) = Inr [Row_owned 8] \<and>
   invocations 2 Row_close (Row_owned 8) = 1 \<and>
   fst (Table_read (\<lambda>p i s. ((9, None), s)) \<lparr>table_t = 1\<rparr> 0 ()) = Inr (Row_borrowed 9) \<and>
   invocations 2 Row_close (Row_borrowed 9) = 0 \<and>
   fst (CursorRow_next (\<lambda>p s. ((9, None), s)) \<lparr>cursor_row_c = 4\<rparr> ()) = Inr (Some (Row_borrowed 9)) \<and>
   fst (CursorRow_iter_next (\<lambda>p s. ((9, None), s)) \<lparr>cursor_row_c = 4\<rparr> ()) = Inr (Row_borrowed 9)"
proof -
  have a: "fst (FileSort_read (\<lambda>p i s. ((7, None), s)) \<lparr>filesort_fs = 1\<rparr> 0 ()) = Inr (Row_owned 7)"
    by (simp add: FileSort_read_def raise_if_err_def NULL_def fits_i64_def)
  have b: "fst (Aggregate_compute (\<lambda>p s. (((2, 5, (\<lambda>i. if i = 0 then 0 else 8)), None), s)) (\<lambda>p s. s)
          \<lparr>aggregate_agg = 3\<rparr> ()) = Inr [Row_owned 8]"
    by (simp add: Aggregate_compute_def raise_if_err_def NULL_def upt_conv_Cons)
  have c: "fst (Table_read (\<lambda>p i s. ((9, None), s)) \<lparr>table_t = 1\<rparr> 0 ()) = Inr (Row_borrowed 9)"
    by (simp add: Table_read_def raise_if_err_def NULL_def fits_i64_def)
  have d: "fst (CursorRow_next (\<lambda>p s. ((9, None), s)) \<lparr>cursor_row_c = 4\<rparr> ()) = Inr (Some (Row_borrowed 9))"
    by (simp add: CursorRow_next_def raise_if_err_def NULL_def)
  have e: "fst (CursorRow_iter_next (\<lambda>p s. ((9, None), s)) \<lparr>cursor_row_c = 4\<rparr> ()) = Inr (Row_borrowed 9)"
    by (simp add: CursorRow_iter_next_def CursorRow_next_def raise_if_err_def NULL_def)
  note w = row_ownership [where rd = "\<lambda>p i s. ((7, None), s)" and fs = "\<lparr>filesort_fs = 1\<rparr>"
      and i = 0 and s = "()" and row = "Row_owned 7" and n = 1
      and free_fn = "\<lambda>p u. u" and t = "()"]
  note w2 = row_ownership [where cmp = "\<lambda>p s. (((2, 5, (\<lambda>i. if i = 0 then 0 else 8)), None), s)"
      and lf = "\<lambda>p s. s" and agg = "\<lparr>aggregate_agg = 3\<rparr>" and s = "()" and rows = "[Row_owned 8]" and n = 1
      and free_fn = "\<lambda>p u. u" and t = "()"]
  note w3 = row_ownership [where trd = "\<lambda>p i s. ((9, None), s)" and tbl = "\<lparr>table_t = 1\<rparr>"
      and rowid = 0 and s = "()" and row = "Row_borrowed 9" and n = 2
      and free_fn = "\<lambda>p u. u" and t = "()"]
  from w [THEN conjunct1, THEN mp, OF a] have 1: "invocations 2 Row_close (Row_owned 7) = 1" by (simp add: numeral_2_eq_2)
  from w2 [THEN conjunct2, THEN conjunct1, THEN mp, OF b] have 2: "invocations 2 Row_close (Row_owned 8) = 1" by (simp add: numeral_2_eq_2)
  from w3 [THEN conjunct2, THEN conjunct2, THEN conjunct1, THEN mp, OF c] have 3: "invocations 2 Row_close (Row_borrowed 9) = 0" by simp
  from a b c d e 1 2 3 show ?thesis by simp
qed

subsection \<open>Ownership transfer in Aggregate.build\<close>

lemma fill_groupbys_eq:
  "fill_groupbys gbs = (map groupby_gb gbs, map (\<lambda>gb. gb\<lparr>groupby_owned := False\<rparr>) gbs)"
  by (induction gbs) auto

lemma fill_funcs_eq:
  "fill_funcs fs = (map aggfunc_f fs, map (\<lambda>f. f\<lparr>aggfunc_owned := False\<rparr>) fs)"
  by (induction fs) auto

lemma Aggregate_build_handles:
  "snd (fst (Aggregate_build anew agg_id groupbys funcs s)) =
     (map (\<lambda>gb. gb\<lparr>groupby_owned := False\<rparr>) groupbys,
      map (\<lambda>f. f\<lparr>aggfunc_owned := False\<rparr>) funcs)"
proof -
  obtain agg err s' where
    "anew (to_cstr agg_id)
       (if length groupbys \<noteq> 0 then Some (map groupby_gb groupbys) else None) (length groupbys)
       (if length funcs \<noteq> 0 then Some (map aggfunc_f funcs) else None) (length funcs) s
     = ((agg, err), s')"
    by (metis surj_pair)
  then show ?thesis
    by (cases err) (simp_all add: Aggregate_build_def fill_groupbys_eq fill_funcs_eq raise_if_err_def)
qed

lemma GroupBy_close_not_owned:
  "\<not> groupby_owned gb \<Longrightarrow> GroupBy_close free_fn gb t = (gb, t)"
  by (simp add: GroupBy_close_def)

lemma AggFunc_close_not_owned:
  "\<not> aggfunc_owned f \<Longrightarrow> AggFunc_close free_fn f t = (f, t)"
  by (simp add: AggFunc_close_def)

lemma GroupBy_never_freed:
  assumes "\<not> groupby_owned gb"
  shows "invocations n GroupBy_close gb = 0"
proof -
  have "closes n (GroupBy_close count_call) gb 0 = (gb, 0)"
    by (rule closes_fixed) (simp add: GroupBy_close_not_owned assms)
  then show ?thesis by (simp add: invocations_def)
qed

lemma AggFunc_never_freed:
  assumes "\<not> aggfunc_owned f"
  shows "invocations n AggFunc_close f = 0"
proof -
  have "closes n (AggFunc_close count_call) f 0 = (f, 0)"
    by (rule closes_fixed) (simp add: AggFunc_close_not_owned assms)
  then show ?thesis by (simp add: invocations_def)
qed

text \<open>
  Claim C9. \<^verbatim>\<open>Aggregate.build\<close> leaves every \<^verbatim>\<open>GroupBy\<close> and \<^verbatim>\<open>AggFunc\<close> handle it was
  given marked not-owned, whatever \<^verbatim>\<open>aggregate_new\<close> does (the handles returned do not
  depend on the engine's reply, so also when the call fails). A later \<^verbatim>\<open>close()\<close> on such a
  handle changes nothing and never invokes the engine's \<^verbatim>\<open>free\<close>, however often it is
  called.
\<close>

theorem build_transfers_ownership:
  "snd (fst (Aggregate_build anew agg_id groupbys funcs s)) =
     (map (\<lambda>gb. gb\<lparr>groupby_owned := False\<rparr>) groupbys,
      map (\<lambda>f. f\<lparr>aggfunc_owned := False\<rparr>) funcs) \<and>
   (\<forall>gb \<in> set (fst (snd (fst (Aggregate_build anew agg_id groupbys funcs s)))).
      \<not> groupby_owned gb \<and> invocations n GroupBy_close gb = 0 \<and>
      GroupBy_close free_fn gb t = (gb, t)) \<and>
   (\<forall>f \<in> set (snd (snd (fst (Aggregate_build anew agg_id groupbys funcs s)))).
      \<not> aggfunc_owned f \<and> invocations n AggFunc_close f = 0 \<and>
      AggFunc_close free_fn f t = (f, t))"
proof (intro conjI ballI)
  show "snd (fst (Aggregate_build anew agg_id groupbys funcs s)) =
     (map (\<lambda>gb. gb\<lparr>groupby_owned := False\<rparr>) groupbys,
      map (\<lambda>f. f\<lparr>aggfunc_owned := False\<rparr>) funcs)"
    by (rule Aggregate_build_handles)
next
  fix gb
  assume "gb \<in> set (fst (snd (fst (Aggregate_build anew agg_id groupbys funcs s))))"
  then show no: "\<not> groupby_owned gb" by (auto simp: Aggregate_build_handles)
  then show "invocations n GroupBy_close gb = 0" by (rule GroupBy_never_freed)
  from no show "GroupBy_close free_fn gb t = (gb, t)" by (rule GroupBy_close_not_owned)
next
  fix f
  assume "f \<in> set (snd (snd (fst (Aggregate_build anew agg_id groupbys funcs s))))"
  then show no: "\<not> aggfunc_owned f" by (auto simp: Aggregate_build_handles)
  then show "invocations n AggFunc_close f = 0" by (rule AggFunc_never_freed)
  from no show "AggFunc_close free_fn f t = (f, t)" by (rule AggFunc_close_not_owned)
qed

text \<open>
  An instance: \<^verbatim>\<open>aggregate_new\<close> fails, \<^verbatim>\<open>build\<close> raises, and both handles are left
  not-owned; closing them twice frees nothing, where closing the still-owned group-by
  handle would have freed it once.
\<close>

theorem build_transfers_ownership_witness:
  "fst (fst (Aggregate_build (\<lambda>a g gc f fc s. ((0, Some ''out of memory''), s)) ''agg''
      [\<lparr>groupby_gb = 5, groupby_owned = True\<rparr>] [\<lparr>aggfunc_f = 6, aggfunc_owned = True\<rparr>] ()))
     = Inl (FlintDBError ''out of memory'') \<and>
   snd (fst (Aggregate_build (\<lambda>a g gc f fc s. ((0, Some ''out of memory''), s)) ''agg''
      [\<lparr>groupby_gb = 5, groupby_owned = True\<rparr>] [\<lparr>aggfunc_f = 6, aggfunc_owned = True\<rparr>] ()))
     = ([\<lparr>groupby_gb = 5, groupby_owned = False\<rparr>], [\<lparr>aggfunc_f = 6, aggfunc_owned = False\<rparr>]) \<and>
   invocations 2 GroupBy_close \<lparr>groupby_gb = 5, groupby_owned = False\<rparr> = 0 \<and>
   invocations 2 AggFunc_close \<lparr>aggfunc_f = 6, aggfunc_owned = False\<rparr> = 0 \<and>
   invocations 2 GroupBy_close \<lparr>groupby_gb = 5, groupby_owned = True\<rparr> = 1"
proof -
  note w = build_transfers_ownership [where anew = "\<lambda>a g gc f fc s. ((0, Some ''out of memory''), s)"
      and agg_id = "''agg''" and groupbys = "[\<lparr>groupby_gb = 5, groupby_owned = True\<rparr>]"
      and funcs = "[\<lparr>aggfunc_f = 6, aggfunc_owned = True\<rparr>]" and s = "()" and n = 2
      and free_fn = "\<lambda>p u. u" and t = "()"]
  have e: "fst (fst (Aggregate_build (\<lambda>a g gc f fc s. ((0, Some ''out of memory''), s)) ''agg''
      [\<lparr>groupby_gb = 5, groupby_owned = True\<rparr>] [\<lparr>aggfunc_f = 6, aggfunc_owned = True\<rparr>] ()))
     = Inl (FlintDBError ''out of memory'')"
    by (simp add: Aggregate_build_def raise_if_err_def Let_def)
  have o: "invocations 2 GroupBy_close \<lparr>groupby_gb = 5, groupby_owned = True\<rparr> = 1"
    by (simp add: invocations_def numeral_2_eq_2 GroupBy_close_def count_call_def NULL_def)
  from w have h: "snd (fst (Aggregate_build (\<lambda>a g gc f fc s. ((0, Some ''out of memory''), s)) ''agg''
      [\<lparr>groupby_gb = 5, groupby_owned = True\<rparr>] [\<lparr>aggfunc_f = 6, aggfunc_owned = True\<rparr>] ()))
     = ([\<lparr>groupby_gb = 5, groupby_owned = False\<rparr>], [\<lparr>aggfunc_f = 6, aggfunc_owned = False\<rparr>])"
    by simp
  from w h have "invocations 2 GroupBy_close \<lparr>groupby_gb = 5, groupby_owned = False\<rparr> = 0"
    and "invocations 2 AggFunc_close \<lparr>aggfunc_f = 6, aggfunc_owned = False\<rparr> = 0"
    by simp_all
  with e o h show ?thesis by simp
qed

subsection \<open>Key names in Meta.add_index\<close>











subsection \<open>Cursor iteration\<close>

lemma CursorI64_stop_iff:
  "(fst (CursorI64_iter_next nxt c s) = Inl StopIteration) =
   (\<exists>v. fst (CursorI64_next nxt c s) = Inr v \<and> v < 0)"
  by (auto simp: CursorI64_iter_next_def CursorI64_next_def raise_if_err_def
      split: prod.splits option.splits sum.splits if_splits)

lemma CursorI64_yield_nonneg:
  "fst (CursorI64_iter_next nxt c s) = Inr v \<Longrightarrow> 0 \<le> v \<and> fst (CursorI64_next nxt c s) = Inr v"
  by (auto simp: CursorI64_iter_next_def split: prod.splits sum.splits if_splits)

lemma CursorRow_None_iff:
  "(fst (CursorRow_next rnxt cr s) = Inr None) =
   (err_of (rnxt (cursor_row_c cr) s) = None \<and> ret_of (rnxt (cursor_row_c cr) s) = NULL)"
  by (auto simp: CursorRow_next_def raise_if_err_def err_of_def ret_of_def
      split: prod.splits option.splits if_splits)

lemma CursorRow_stop_iff:
  "(fst (CursorRow_iter_next rnxt cr s) = Inl StopIteration) =
   (fst (CursorRow_next rnxt cr s) = Inr None)"
  by (auto simp: CursorRow_iter_next_def CursorRow_next_def raise_if_err_def
      split: prod.splits option.splits sum.splits if_splits)

lemma CursorRow_next_nonnull:
  "fst (CursorRow_next rnxt cr s) = Inr (Some row) \<Longrightarrow> row_r row \<noteq> NULL"
  by (auto simp: CursorRow_next_def raise_if_err_def Row_borrowed_def
      split: prod.splits option.splits if_splits)

lemma CursorRow_iter_nonnull:
  "fst (CursorRow_iter_next rnxt cr s) = Inr row \<Longrightarrow> row_r row \<noteq> NULL"
  by (rule CursorRow_next_nonnull) (rule CursorRow_iter_next_Inr)

lemma calls_fixed:
  assumes "m s = (r, s)"
  shows "calls n m s = (replicate n r, s)"
  using assms by (induction n) auto

lemma CursorI64_next_past_end:
  "calls n (CursorI64_next cursor_i64_next_spec c) [] = (replicate n (Inr (- 1)), [])"
  by (rule calls_fixed) (simp add: CursorI64_next_def cursor_i64_next_spec_def raise_if_err_def)

lemma CursorI64_iter_past_end:
  "calls n (CursorI64_iter_next cursor_i64_next_spec c) [] = (replicate n (Inl StopIteration), [])"
  by (rule calls_fixed)
    (simp add: CursorI64_iter_next_def CursorI64_next_def cursor_i64_next_spec_def raise_if_err_def)

lemma CursorRow_next_past_end:
  "calls n (CursorRow_next cursor_row_next_spec cr) [] = (replicate n (Inr None), [])"
  by (rule calls_fixed) (simp add: CursorRow_next_def cursor_row_next_spec_def raise_if_err_def)

lemma CursorRow_iter_past_end:
  "calls n (CursorRow_iter_next cursor_row_next_spec cr) [] = (replicate n (Inl StopIteration), [])"
  by (rule calls_fixed)
    (simp add: CursorRow_iter_next_def CursorRow_next_def cursor_row_next_spec_def raise_if_err_def)

lemma CursorI64_iterates_all:
  "\<forall>v \<in> set ids. 0 \<le> v \<Longrightarrow>
   calls (length ids + n) (CursorI64_iter_next cursor_i64_next_spec c) ids =
     (map Inr ids @ replicate n (Inl StopIteration), [])"
proof (induction ids)
  case Nil
  then show ?case by (simp add: CursorI64_iter_past_end)
next
  case (Cons v ids)
  then show ?case
    by (simp add: CursorI64_iter_next_def CursorI64_next_def cursor_i64_next_spec_def
        raise_if_err_def)
qed

lemma CursorRow_iterates_all:
  "\<forall>r \<in> set rows. r \<noteq> NULL \<Longrightarrow>
   calls (length rows + n) (CursorRow_iter_next cursor_row_next_spec cr) rows =
     (map (\<lambda>r. Inr (Row_borrowed r)) rows @ replicate n (Inl StopIteration), [])"
proof (induction rows)
  case Nil
  then show ?case by (simp add: CursorRow_iter_past_end)
next
  case (Cons r rows)
  then show ?case
    by (simp add: CursorRow_iter_next_def CursorRow_next_def cursor_row_next_spec_def
        raise_if_err_def)
qed


text \<open>
  Claim C6. For \<^verbatim>\<open>CursorI64\<close>, \<^verbatim>\<open>__next__\<close> raises \<^verbatim>\<open>StopIteration\<close> exactly when
  \<^verbatim>\<open>next()\<close> returned a negative row id, and a row id it yields is the one \<^verbatim>\<open>next()\<close>
  returned and is not negative. For \<^verbatim>\<open>CursorRow\<close>, \<^verbatim>\<open>next()\<close> returns \<^verbatim>\<open>None\<close> exactly when
  the engine yields the null row (a null pointer with the error descriptor empty),
  \<^verbatim>\<open>__next__\<close> raises \<^verbatim>\<open>StopIteration\<close> exactly then, and a row that is yielded is never
  null. On an engine cursor that keeps yielding its sentinel once exhausted, any number
  of further calls yields the terminal value again: \<open>-1\<close> and \<^verbatim>\<open>None\<close> from \<^verbatim>\<open>next()\<close>,
  \<^verbatim>\<open>StopIteration\<close> from \<^verbatim>\<open>__next__\<close>; and iterating over such a cursor yields every row id
  (every row) of the scan in order before that.
\<close>

theorem cursor_iteration:
  "((fst (CursorI64_iter_next nxt c s) = Inl StopIteration) =
      (\<exists>v. fst (CursorI64_next nxt c s) = Inr v \<and> v < 0)) \<and>
   (fst (CursorI64_iter_next nxt c s) = Inr v \<longrightarrow>
      0 \<le> v \<and> fst (CursorI64_next nxt c s) = Inr v) \<and>
   ((fst (CursorRow_next rnxt cr s) = Inr None) =
      (err_of (rnxt (cursor_row_c cr) s) = None \<and> ret_of (rnxt (cursor_row_c cr) s) = NULL)) \<and>
   ((fst (CursorRow_iter_next rnxt cr s) = Inl StopIteration) =
      (fst (CursorRow_next rnxt cr s) = Inr None)) \<and>
   (fst (CursorRow_next rnxt cr s) = Inr (Some row) \<longrightarrow> row_r row \<noteq> NULL) \<and>
   (fst (CursorRow_iter_next rnxt cr s) = Inr row \<longrightarrow> row_r row \<noteq> NULL) \<and>
   calls n (CursorI64_next cursor_i64_next_spec c) [] = (replicate n (Inr (- 1)), []) \<and>
   calls n (CursorI64_iter_next cursor_i64_next_spec c) [] =
     (replicate n (Inl StopIteration), []) \<and>
   calls n (CursorRow_next cursor_row_next_spec cr) [] = (replicate n (Inr None), []) \<and>
   calls n (CursorRow_iter_next cursor_row_next_spec cr) [] =
     (replicate n (Inl StopIteration), []) \<and>
   ((\<forall>v \<in> set ids. 0 \<le> v) \<longrightarrow>
      calls (length ids + n) (CursorI64_iter_next cursor_i64_next_spec c) ids =
        (map Inr ids @ replicate n (Inl StopIteration), [])) \<and>
   ((\<forall>r \<in> set rows. r \<noteq> NULL) \<longrightarrow>
      calls (length rows + n) (CursorRow_iter_next cursor_row_next_spec cr) rows =
        (map (\<lambda>r. Inr (Row_borrowed r)) rows @ replicate n (Inl StopIteration), []))"
proof (intro conjI impI)
  show "(fst (CursorI64_iter_next nxt c s) = Inl StopIteration) =
      (\<exists>v. fst (CursorI64_next nxt c s) = Inr v \<and> v < 0)"
    by (rule CursorI64_stop_iff)
  show "0 \<le> v" and "fst (CursorI64_next nxt c s) = Inr v"
    if "fst (CursorI64_iter_next nxt c s) = Inr v"
    using CursorI64_yield_nonneg [OF that] by simp_all
  show "(fst (CursorRow_next rnxt cr s) = Inr None) =
      (err_of (rnxt (cursor_row_c cr) s) = None \<and> ret_of (rnxt (cursor_row_c cr) s) = NULL)"
    by (rule CursorRow_None_iff)
  show "(fst (CursorRow_iter_next rnxt cr s) = Inl StopIteration) =
      (fst (CursorRow_next rnxt cr s) = Inr None)"
    by (rule CursorRow_stop_iff)
  show "row_r row \<noteq> NULL" if "fst (CursorRow_next rnxt cr s) = Inr (Some row)"
    using that by (rule CursorRow_next_nonnull)
  show "row_r row \<noteq> NULL" if "fst (CursorRow_iter_next rnxt cr s) = Inr row"
    using that by (rule CursorRow_iter_nonnull)
  show "calls n (CursorI64_next cursor_i64_next_spec c) [] = (replicate n (Inr (- 1)), [])"
    by (rule CursorI64_next_past_end)
  show "calls n (CursorI64_iter_next cursor_i64_next_spec c) [] =
     (replicate n (Inl StopIteration), [])"
    by (rule CursorI64_iter_past_end)
  show "calls n (CursorRow_next cursor_row_next_spec cr) [] = (replicate n (Inr None), [])"
    by (rule CursorRow_next_past_end)
  show "calls n (CursorRow_iter_next cursor_row_next_spec cr) [] =
     (replicate n (Inl StopIteration), [])"
    by (rule CursorRow_iter_past_end)
  show "calls (length ids + n) (CursorI64_iter_next cursor_i64_next_spec c) ids =
        (map Inr ids @ replicate n (Inl StopIteration), [])"
    if "\<forall>v \<in> set ids. 0 \<le> v"
    using that by (rule CursorI64_iterates_all)
  show "calls (length rows + n) (CursorRow_iter_next cursor_row_next_spec cr) rows =
        (map (\<lambda>r. Inr (Row_borrowed r)) rows @ replicate n (Inl StopIteration), [])"
    if "\<forall>r \<in> set rows. r \<noteq> NULL"
    using that by (rule CursorRow_iterates_all)
qed

text \<open>
  An instance: a scan of the row ids 0 and 3 called four times, a scan of one row called
  twice, and single calls on an engine that yields row id 4 and the row at address 7.
\<close>

theorem cursor_iteration_witness:
  "calls 4 (CursorI64_iter_next cursor_i64_next_spec \<lparr>cursor_i64_c = 1\<rparr>) [0, 3] =
     ([Inr 0, Inr 3, Inl StopIteration, Inl StopIteration], []) \<and>
   calls 2 (CursorRow_iter_next cursor_row_next_spec \<lparr>cursor_row_c = 1\<rparr>) [7] =
     ([Inr (Row_borrowed 7), Inl StopIteration], []) \<and>
   fst (CursorI64_iter_next (\<lambda>c s. ((4, None), s)) \<lparr>cursor_i64_c = 1\<rparr> ()) = Inr 4 \<and>
   fst (CursorI64_next (\<lambda>c s. ((4, None), s)) \<lparr>cursor_i64_c = 1\<rparr> ()) = Inr 4 \<and>
   fst (CursorRow_next (\<lambda>c s. ((7, None), s)) \<lparr>cursor_row_c = 1\<rparr> ()) = Inr (Some (Row_borrowed 7)) \<and>
   row_r (Row_borrowed 7) \<noteq> NULL"
proof -
  note w = cursor_iteration [where ids = "[0, 3]" and rows = "[7]" and n = 2
      and c = "\<lparr>cursor_i64_c = 1\<rparr>" and cr = "\<lparr>cursor_row_c = 1\<rparr>"
      and nxt = "\<lambda>c s. ((4, None), s)" and rnxt = "\<lambda>c s. ((7, None), s)" and s = "()"
      and v = 4 and row = "Row_borrowed 7"]
  note w1 = cursor_iteration [where rows = "[7]" and n = 1 and cr = "\<lparr>cursor_row_c = 1\<rparr>"]
  have p: "\<forall>v \<in> set [0, 3 :: int]. 0 \<le> v" by simp
  have q: "\<forall>r \<in> set [7 :: ptr]. r \<noteq> NULL" by (simp add: NULL_def)
  have a: "fst (CursorI64_iter_next (\<lambda>c s. ((4, None), s)) \<lparr>cursor_i64_c = 1\<rparr> ()) = Inr 4"
    by (simp add: CursorI64_iter_next_def CursorI64_next_def raise_if_err_def)
  have b: "fst (CursorRow_next (\<lambda>c s. ((7, None), s)) \<lparr>cursor_row_c = 1\<rparr> ()) = Inr (Some (Row_borrowed 7))"
    by (simp add: CursorRow_next_def raise_if_err_def NULL_def)
  from w [THEN conjunct2, THEN conjunct2, THEN conjunct2, THEN conjunct2, THEN conjunct2, THEN conjunct2, THEN conjunct2, THEN conjunct2, THEN conjunct2, THEN conjunct2, THEN conjunct1, THEN mp, OF p] have 1: "calls 4 (CursorI64_iter_next cursor_i64_next_spec \<lparr>cursor_i64_c = 1\<rparr>) [0, 3] =
     ([Inr 0, Inr 3, Inl StopIteration, Inl StopIteration], [])"
    by (simp add: numeral_eq_Suc)
  from w1 [THEN conjunct2, THEN conjunct2, THEN conjunct2, THEN conjunct2, THEN conjunct2, THEN conjunct2, THEN conjunct2, THEN conjunct2, THEN conjunct2, THEN conjunct2, THEN conjunct2, THEN mp, OF q] have 2: "calls 2 (CursorRow_iter_next cursor_row_next_spec \<lparr>cursor_row_c = 1\<rparr>) [7] =
     ([Inr (Row_borrowed 7), Inl StopIteration], [])"
    by (simp add: numeral_eq_Suc)
  from w [THEN conjunct2, THEN conjunct1, THEN mp, OF a] have 3: "fst (CursorI64_next (\<lambda>c s. ((4, None), s)) \<lparr>cursor_i64_c = 1\<rparr> ()) = Inr 4"
    by simp
  from w [THEN conjunct2, THEN conjunct2, THEN conjunct2, THEN conjunct2, THEN conjunct1, THEN mp, OF b] have 4: "row_r (Row_borrowed 7) \<noteq> NULL" by simp
  from 1 2 3 4 a b show ?thesis by simp
qed

subsection \<open>Aggregate.compute\<close>

lemma collect_rows_eq:
  "collect_rows rows is = map Row_owned (filter (\<lambda>p. p \<noteq> NULL) (map rows is))"
  by (induction "is") auto

lemma Aggregate_compute_empty_reply:
  assumes "cmp (aggregate_agg agg) s = (((n, out0, rows), None), s')"
    and "n \<le> 0 \<or> out0 = NULL"
  shows "Aggregate_compute cmp lf agg s = (Inr [], s')"
  using assms by (auto simp: Aggregate_compute_def raise_if_err_def)

lemma Aggregate_compute_rows:
  assumes "cmp (aggregate_agg agg) s = (((n, out0, rows), None), s')"
    and "0 < n \<and> out0 \<noteq> NULL"
  shows "Aggregate_compute cmp lf agg s =
    (Inr (map Row_owned (filter (\<lambda>p. p \<noteq> NULL) (map rows [0..<nat n]))), lf out0 s')"
  using assms by (auto simp: Aggregate_compute_def raise_if_err_def collect_rows_eq)

lemma Aggregate_compute_Nil_iff:
  assumes "cmp (aggregate_agg agg) s = (((n, out0, rows), None), s')"
  shows "(fst (Aggregate_compute cmp lf agg s) = Inr []) =
    (n \<le> 0 \<or> out0 = NULL \<or> (\<forall>i < nat n. rows i = NULL))"
proof (cases "n \<le> 0 \<or> out0 = NULL")
  case True
  with assms show ?thesis by (auto simp: Aggregate_compute_empty_reply)
next
  case False
  then have "0 < n \<and> out0 \<noteq> NULL" by auto
  from Aggregate_compute_rows [where cmp = cmp and agg = agg and lf = lf, OF assms this] False
  show ?thesis
    by (auto simp: filter_empty_conv)
qed

lemma Aggregate_compute_nothing_folded:
  "fst (Aggregate_compute (aggregate_compute_spec arr) lf agg []) = Inr []"
  by (simp add: Aggregate_compute_def aggregate_compute_spec_def raise_if_err_def)

text \<open>
  Claim C8, as the code has it. When the engine leaves the error descriptor empty:
  \<^verbatim>\<open>compute()\<close> returns the empty list if the engine reports a non-positive count or a
  null output array, and then releases nothing; otherwise it returns one owned \<^verbatim>\<open>Row\<close> per
  non-null pointer among the first \<open>n\<close> entries of the output array, in order, and
  releases the array with exactly one call of libc's \<^verbatim>\<open>free\<close>. So the result is empty
  exactly when the count is non-positive, the array is null, or all \<open>n\<close> entries are null.
  On an engine into which no row was ever folded, \<^verbatim>\<open>compute()\<close> returns the empty list.
\<close>

theorem compute_rows_and_container:
  "(cmp (aggregate_agg agg) s = (((n, out0, rows), None), s') \<longrightarrow>
      (n \<le> 0 \<or> out0 = NULL \<longrightarrow> Aggregate_compute cmp lf agg s = (Inr [], s')) \<and>
      (0 < n \<and> out0 \<noteq> NULL \<longrightarrow>
         Aggregate_compute cmp lf agg s =
           (Inr (map Row_owned (filter (\<lambda>p. p \<noteq> NULL) (map rows [0..<nat n]))), lf out0 s')) \<and>
      ((fst (Aggregate_compute cmp lf agg s) = Inr []) =
         (n \<le> 0 \<or> out0 = NULL \<or> (\<forall>i < nat n. rows i = NULL)))) \<and>
   fst (Aggregate_compute (aggregate_compute_spec arr) lf' agg []) = Inr []"
proof (intro conjI impI)
  assume r: "cmp (aggregate_agg agg) s = (((n, out0, rows), None), s')"
  show "Aggregate_compute cmp lf agg s = (Inr [], s')" if "n \<le> 0 \<or> out0 = NULL"
    using r that by (rule Aggregate_compute_empty_reply)
  show "Aggregate_compute cmp lf agg s =
      (Inr (map Row_owned (filter (\<lambda>p. p \<noteq> NULL) (map rows [0..<nat n]))), lf out0 s')"
    if "0 < n \<and> out0 \<noteq> NULL"
    using r that by (rule Aggregate_compute_rows)
  show "(fst (Aggregate_compute cmp lf agg s) = Inr []) =
      (n \<le> 0 \<or> out0 = NULL \<or> (\<forall>i < nat n. rows i = NULL))"
    using r by (rule Aggregate_compute_Nil_iff)
next
  show "fst (Aggregate_compute (aggregate_compute_spec arr) lf' agg []) = Inr []"
    by (rule Aggregate_compute_nothing_folded)
qed

text \<open>
  Claim C8 as stated ("the empty list exactly when the engine reports a non-positive
  output count or a null output array") fails: for a count of 1 and a non-null array
  whose only entry is null, \<^verbatim>\<open>compute()\<close> returns the empty list.
\<close>

theorem compute_empty_with_positive_count:
  "fst (Aggregate_compute (\<lambda>p s. (((1, 5, \<lambda>i. NULL), None), s)) (\<lambda>p s. s)
         \<lparr>aggregate_agg = 3\<rparr> ()) = Inr [] \<and>
   \<not> ((1 :: int) \<le> 0 \<or> (5 :: ptr) = NULL)"
  by (simp add: Aggregate_compute_def raise_if_err_def NULL_def)

text \<open>
  An instance, with a counter for the calls of \<^verbatim>\<open>free\<close>: three entries of which the
  second is null give two owned rows and one call; a count of 0 gives the empty list and
  no call.
\<close>

theorem compute_rows_and_container_witness:
  "Aggregate_compute (\<lambda>p k. (((3, 5, \<lambda>i. if i = 1 then 0 else 10 + i), None), k)) count_call
      \<lparr>aggregate_agg = 3\<rparr> 0 = (Inr [Row_owned 10, Row_owned 12], 1) \<and>
   Aggregate_compute (\<lambda>p k. (((0, 5, \<lambda>i. 10 + i), None), k)) count_call
      \<lparr>aggregate_agg = 3\<rparr> 0 = (Inr [], 0)"
proof -
  note w = compute_rows_and_container [where cmp = "\<lambda>p k. (((3, 5, \<lambda>i. if i = 1 then 0 else 10 + i), None), k)"
      and agg = "\<lparr>aggregate_agg = 3\<rparr>" and s = 0 and n = 3 and ?out0.0 = 5
      and rows = "\<lambda>i. if i = 1 then 0 else 10 + i" and s' = 0 and lf = count_call]
  note v = compute_rows_and_container [where cmp = "\<lambda>p k. (((0, 5, \<lambda>i. 10 + i), None), k)"
      and agg = "\<lparr>aggregate_agg = 3\<rparr>" and s = 0 and n = 0 and ?out0.0 = 5
      and rows = "\<lambda>i. 10 + i" and s' = "0 :: nat" and lf = count_call]
  have a: "(\<lambda>p k. (((3 :: int, 5 :: ptr, \<lambda>i. if i = 1 then 0 else 10 + i), None :: errp), k))
      (aggregate_agg \<lparr>aggregate_agg = 3\<rparr>) (0 :: nat) =
      (((3, 5, \<lambda>i. if i = 1 then 0 else 10 + i), None), 0)" by simp
  have b: "(\<lambda>p k. (((0 :: int, 5 :: ptr, \<lambda>i. 10 + i), None :: errp), k))
      (aggregate_agg \<lparr>aggregate_agg = 3\<rparr>) (0 :: nat) = (((0, 5, \<lambda>i. 10 + i), None), 0)" by simp
  have c: "(0 :: int) < 3 \<and> (5 :: ptr) \<noteq> NULL" by (simp add: NULL_def)
  have d: "(0 :: int) \<le> 0 \<or> (5 :: ptr) = NULL" by simp
  from w [THEN conjunct1, THEN mp, OF a, THEN conjunct2, THEN conjunct1, THEN mp, OF c]
  have 1: "Aggregate_compute (\<lambda>p k. (((3, 5, \<lambda>i. if i = 1 then 0 else 10 + i), None), k)) count_call
      \<lparr>aggregate_agg = 3\<rparr> 0 = (Inr [Row_owned 10, Row_owned 12], 1)"
    by (simp add: upt_conv_Cons NULL_def count_call_def)
  from v [THEN conjunct1, THEN mp, OF b, THEN conjunct1, THEN mp, OF d]
  have 2: "Aggregate_compute (\<lambda>p k. (((0, 5, \<lambda>i. 10 + i), None), k)) count_call
      \<lparr>aggregate_agg = 3\<rparr> 0 = (Inr [], 0)"
    by simp
  from 1 2 show ?thesis by simp
qed

subsection \<open>Row.validate\<close>

lemma Row_validate_False_iff:
  "(fst (Row_validate vf row s) = Inr False) =
   (err_of (vf (row_r row) s) = None \<and> ret_of (vf (row_r row) s) = 0)"
  by (auto simp: Row_validate_def raise_if_err_def err_of_def ret_of_def
      split: prod.splits option.splits)

lemma Row_validate_True_iff:
  "(fst (Row_validate vf row s) = Inr True) =
   (err_of (vf (row_r row) s) = None \<and> ret_of (vf (row_r row) s) \<noteq> 0)"
  by (auto simp: Row_validate_def raise_if_err_def err_of_def ret_of_def
      split: prod.splits option.splits)

lemma Row_validate_spec_violation:
  assumes "first_violation (fst (vs_rows e (row_r row))) (snd (vs_rows e (row_r row))) = Some name"
  shows "Row_validate row_validate_spec row e = (Inr False, e\<lparr>vs_failed := Some name\<rparr>)"
proof -
  obtain cols vals where r: "vs_rows e (row_r row) = (cols, vals)"
    by (cases "vs_rows e (row_r row)")
  with assms have "first_violation cols vals = Some name" by simp
  with r show ?thesis
    by (simp add: Row_validate_def row_validate_spec_def raise_if_err_def)
qed

lemma Row_validate_spec_valid:
  assumes "first_violation (fst (vs_rows e (row_r row))) (snd (vs_rows e (row_r row))) = None"
  shows "Row_validate row_validate_spec row e = (Inr True, e\<lparr>vs_failed := None\<rparr>)"
proof -
  obtain cols vals where r: "vs_rows e (row_r row) = (cols, vals)"
    by (cases "vs_rows e (row_r row)")
  with assms have "first_violation cols vals = None" by simp
  with r show ?thesis
    by (simp add: Row_validate_def row_validate_spec_def raise_if_err_def)
qed

text \<open>
  Claim C4. For every engine routine, \<^verbatim>\<open>Row.validate()\<close> returns \<^verbatim>\<open>False\<close> exactly when the
  engine returns 0 and leaves the error descriptor empty, and \<^verbatim>\<open>True\<close> exactly when it
  returns non-zero and leaves it empty. On the engine as the spec describes it (false,
  not an exception; the failing column exposed out of band), a row that violates a
  not-null or size bound makes \<^verbatim>\<open>validate()\<close> return \<^verbatim>\<open>False\<close> to the caller, not raise, with
  the first failing column recorded by the engine; a row without violation gives
  \<^verbatim>\<open>True\<close>.
\<close>

theorem validate_returns_false:
  "(fst (Row_validate vf row s) = Inr False) =
      (err_of (vf (row_r row) s) = None \<and> ret_of (vf (row_r row) s) = 0) \<and>
   (fst (Row_validate vf row s) = Inr True) =
      (err_of (vf (row_r row) s) = None \<and> ret_of (vf (row_r row) s) \<noteq> 0) \<and>
   (first_violation (fst (vs_rows e (row_r row))) (snd (vs_rows e (row_r row))) = Some name \<longrightarrow>
      Row_validate row_validate_spec row e = (Inr False, e\<lparr>vs_failed := Some name\<rparr>)) \<and>
   (first_violation (fst (vs_rows e (row_r row))) (snd (vs_rows e (row_r row))) = None \<longrightarrow>
      Row_validate row_validate_spec row e = (Inr True, e\<lparr>vs_failed := None\<rparr>))"
proof (intro conjI impI)
  show "(fst (Row_validate vf row s) = Inr False) =
      (err_of (vf (row_r row) s) = None \<and> ret_of (vf (row_r row) s) = 0)"
    by (rule Row_validate_False_iff)
  show "(fst (Row_validate vf row s) = Inr True) =
      (err_of (vf (row_r row) s) = None \<and> ret_of (vf (row_r row) s) \<noteq> 0)"
    by (rule Row_validate_True_iff)
  show "Row_validate row_validate_spec row e = (Inr False, e\<lparr>vs_failed := Some name\<rparr>)"
    if "first_violation (fst (vs_rows e (row_r row))) (snd (vs_rows e (row_r row))) = Some name"
    using that by (rule Row_validate_spec_violation)
  show "Row_validate row_validate_spec row e = (Inr True, e\<lparr>vs_failed := None\<rparr>)"
    if "first_violation (fst (vs_rows e (row_r row))) (snd (vs_rows e (row_r row))) = None"
    using that by (rule Row_validate_spec_valid)
qed

text \<open>
  An instance: a row whose not-null column \<^verbatim>\<open>name\<close> is null gives \<^verbatim>\<open>False\<close> and the engine
  records \<^verbatim>\<open>name\<close>; a row of 51 bytes in a column of size 50 gives \<^verbatim>\<open>False\<close>; a valid row
  gives \<^verbatim>\<open>True\<close>.
\<close>

theorem validate_returns_false_witness:
  "fst (Row_validate row_validate_spec (Row_owned 2) (example_rows None)) = Inr False \<and>
   vs_failed (snd (Row_validate row_validate_spec (Row_owned 2) (example_rows None))) =
     Some ''name'' \<and>
   fst (Row_validate row_validate_spec (Row_owned 2)
          (example_rows (Some (replicate 51 (CHR ''x''))))) = Inr False \<and>
   fst (Row_validate row_validate_spec (Row_owned 2) (example_rows (Some ''Ann''))) = Inr True"
proof -
  have a: "first_violation (fst (vs_rows (example_rows None) (row_r (Row_owned 2))))
      (snd (vs_rows (example_rows None) (row_r (Row_owned 2)))) = Some ''name''"
    by (simp add: example_rows_def)
  have b: "first_violation
      (fst (vs_rows (example_rows (Some (replicate 51 (CHR ''x'')))) (row_r (Row_owned 2))))
      (snd (vs_rows (example_rows (Some (replicate 51 (CHR ''x'')))) (row_r (Row_owned 2)))) =
      Some ''name''"
    by (simp add: example_rows_def)
  have c: "first_violation (fst (vs_rows (example_rows (Some ''Ann'')) (row_r (Row_owned 2))))
      (snd (vs_rows (example_rows (Some ''Ann'')) (row_r (Row_owned 2)))) = None"
    by (simp add: example_rows_def)
  note w = validate_returns_false [where row = "Row_owned 2"]
  from w [where e = "example_rows None" and name = "''name''",
      THEN conjunct2, THEN conjunct2, THEN conjunct1, THEN mp, OF a]
  have 1: "Row_validate row_validate_spec (Row_owned 2) (example_rows None) =
      (Inr False, (example_rows None)\<lparr>vs_failed := Some ''name''\<rparr>)" .
  from w [where e = "example_rows (Some (replicate 51 (CHR ''x'')))" and name = "''name''",
      THEN conjunct2, THEN conjunct2, THEN conjunct1, THEN mp, OF b]
  have 2: "Row_validate row_validate_spec (Row_owned 2)
      (example_rows (Some (replicate 51 (CHR ''x'')))) =
      (Inr False, (example_rows (Some (replicate 51 (CHR ''x''))))\<lparr>vs_failed := Some ''name''\<rparr>)" .
  from w [where e = "example_rows (Some ''Ann'')",
      THEN conjunct2, THEN conjunct2, THEN conjunct2, THEN mp, OF c]
  have 3: "Row_validate row_validate_spec (Row_owned 2) (example_rows (Some ''Ann'')) =
      (Inr True, (example_rows (Some ''Ann''))\<lparr>vs_failed := None\<rparr>)" .
  from 1 2 3 show ?thesis by simp
qed

subsection \<open>Dropping a table or file by path\<close>

lemma Table_drop_eq: "Table_drop td filepath s = (Inr (), snd (td (to_cstr filepath) None s))"
  by (simp add: Table_drop_def split: prod.splits)

lemma GenericFile_drop_eq: "GenericFile_drop gd filepath s = (Inr (), snd (gd (to_cstr filepath) None s))"
  by (simp add: GenericFile_drop_def split: prod.splits)

lemma Table_drop_spec_removes:
  "snd (Table_drop table_drop_spec filepath fs) = fs(filepath := {})"
  by (simp add: Table_drop_eq table_drop_spec_def to_cstr_def fun_upd_idem)

lemma GenericFile_drop_spec_removes:
  "snd (GenericFile_drop genericfile_drop_spec filepath fs) = fs(filepath := {})"
  by (simp add: GenericFile_drop_eq genericfile_drop_spec_def to_cstr_def fun_upd_idem)

text \<open>
  Claim C5, as the code has it. \<^verbatim>\<open>Table.drop(path)\<close> and \<^verbatim>\<open>GenericFile.drop(path)\<close> call the
  engine's drop routine once for that path, pass it no error slot, discard what it
  returns, and always return normally: whatever the routine does, nothing is reported to
  the caller. With an engine that removes all files of the storage at that path, the
  files are gone afterwards and the storage at every other path is untouched; when there
  were none, the call returns normally all the same.
\<close>

theorem drop_never_reports:
  "Table_drop td filepath s = (Inr (), snd (td (to_cstr filepath) None s)) \<and>
   GenericFile_drop gd filepath s' = (Inr (), snd (gd (to_cstr filepath) None s')) \<and>
   Table_drop table_drop_spec filepath fs = (Inr (), fs(filepath := {})) \<and>
   GenericFile_drop genericfile_drop_spec filepath fs = (Inr (), fs(filepath := {}))"
proof (intro conjI)
  show "Table_drop td filepath s = (Inr (), snd (td (to_cstr filepath) None s))"
    by (rule Table_drop_eq)
  show "GenericFile_drop gd filepath s' = (Inr (), snd (gd (to_cstr filepath) None s'))"
    by (rule GenericFile_drop_eq)
  show "Table_drop table_drop_spec filepath fs = (Inr (), fs(filepath := {}))"
    using Table_drop_spec_removes [of filepath fs] by (simp add: Table_drop_eq)
  show "GenericFile_drop genericfile_drop_spec filepath fs = (Inr (), fs(filepath := {}))"
    using GenericFile_drop_spec_removes [of filepath fs] by (simp add: GenericFile_drop_eq)
qed

text \<open>
  Claim C5 as stated ("or report NotFound to the caller if none exist") fails: on a path
  without files the engine would report NotFound through an error slot, but the binding
  passes none and returns normally.
\<close>

theorem drop_missing_returns_normally:
  "table_drop_spec ''t'' (Some None) (\<lambda>p. {}) = ((- 1, Some (Some ''NotFound'')), (\<lambda>p. {})) \<and>
   fst (Table_drop table_drop_spec ''t'' (\<lambda>p. {})) = Inr () \<and>
   \<not> raises_FlintDBError (fst (Table_drop table_drop_spec ''t'' (\<lambda>p. {}))) \<and>
   fst (GenericFile_drop genericfile_drop_spec ''t'' (\<lambda>p. {})) = Inr ()"
  by (simp add: Table_drop_def GenericFile_drop_def table_drop_spec_def genericfile_drop_spec_def
      raises_FlintDBError_def to_cstr_def)

subsection \<open>Table.apply\<close>

lemma Table_apply_Inr:
  "fst (Table_apply af tbl row cd s) = Inr rid \<Longrightarrow>
   0 \<le> rid \<and> ret_of (af (table_t tbl) (Row_ptr row) (if cd then 1 else 0) s) = rid"
  by (auto simp: Table_apply_def raise_if_err_def ret_of_def
      split: prod.splits option.splits if_splits)

lemma Table_apply_negative:
  "err_of (af (table_t tbl) (Row_ptr row) (if cd then 1 else 0) s) = None \<Longrightarrow>
   ret_of (af (table_t tbl) (Row_ptr row) (if cd then 1 else 0) s) < 0 \<Longrightarrow>
   fst (Table_apply af tbl row cd s) = Inl (FlintDBError ''apply returned < 0'')"
  by (auto simp: Table_apply_def raise_if_err_def ret_of_def err_of_def
      split: prod.splits option.splits if_splits)

lemma find_key_None:
  assumes "key \<notin> stored_keys e"
  shows "find (\<lambda>(rowid, k, p). k = key) (et_rows e) = None"
proof -
  have "\<not> (\<exists>x. x \<in> set (et_rows e) \<and> (\<lambda>(rowid, k, p). k = key) x)"
  proof
    assume "\<exists>x. x \<in> set (et_rows e) \<and> (\<lambda>(rowid, k, p). k = key) x"
    then obtain x where x: "x \<in> set (et_rows e)" and k: "(\<lambda>(rowid, k, p). k = key) x"
      by blast
    from k have "(\<lambda>(rowid, key, payload). key) x = key" by (cases x) simp
    with x have "key \<in> stored_keys e" unfolding stored_keys_def by (rule_tac image_eqI) simp_all
    with assms show False by simp
  qed
  then show ?thesis by (simp only: find_None_iff) simp
qed

lemma find_exists:
  "\<exists>x \<in> set xs. P x \<Longrightarrow> \<exists>y. find P xs = Some y \<and> P y"
  by (induction xs) auto

lemma find_key_Some:
  assumes "key \<in> stored_keys e"
  shows "\<exists>rowid p. find (\<lambda>(rowid, k, p). k = key) (et_rows e) = Some (rowid, key, p)"
proof -
  from assms obtain x where x: "x \<in> set (et_rows e)"
    and k: "key = (\<lambda>(rowid, key, payload). key) x"
    unfolding stored_keys_def by (rule imageE)
  from k have "(\<lambda>(rowid, k, p). k = key) x" by (cases x) simp
  with x have "\<exists>x \<in> set (et_rows e). (\<lambda>(rowid, k, p). k = key) x" by (rule_tac bexI)
  from find_exists [OF this] obtain y
    where f: "find (\<lambda>(rowid, k, p). k = key) (et_rows e) = Some y"
      and p: "(\<lambda>(rowid, k, p). k = key) y"
    by (elim exE conjE)
  obtain rowid k' p' where y: "y = (rowid, k', p')" by (cases y)
  with p have "k' = key" by simp
  with f y show ?thesis by simp
qed

lemma apply_spec_insert:
  assumes "fst (et_heap e (Row_ptr row)) \<notin> stored_keys e" and "et_wf e"
  shows "Table_apply table_apply_spec tbl row cd e =
    (Inr (et_next e),
     e\<lparr>et_rows := et_rows e @ [(et_next e, et_heap e (Row_ptr row))], et_next := et_next e + 1\<rparr>)"
proof -
  obtain key payload where h: "et_heap e (Row_ptr row) = (key, payload)"
    by (cases "et_heap e (Row_ptr row)")
  with assms have "find (\<lambda>(rowid, k, p). k = key) (et_rows e) = None"
    by (simp add: find_key_None)
  with h assms(2) show ?thesis
    by (simp add: Table_apply_def table_apply_spec_def raise_if_err_def et_wf_def)
qed

lemma apply_spec_fresh:
  assumes "et_wf e"
  shows "0 \<le> et_next e \<and> et_next e \<notin> stored_ids e"
  using assms by (auto simp: et_wf_def stored_ids_def list_all_iff)

lemma apply_spec_wf:
  assumes "et_wf e"
  shows "et_wf (e\<lparr>et_rows := et_rows e @ [(et_next e, kp)], et_next := et_next e + 1\<rparr>)"
  using assms by (cases kp) (auto simp: et_wf_def list_all_iff)

lemma apply_spec_duplicate:
  assumes "fst (et_heap e (Row_ptr row)) \<in> stored_keys e"
  shows "Table_apply table_apply_spec tbl row True e = (Inl (FlintDBError ''DuplicateKey''), e)"
proof -
  obtain key payload where h: "et_heap e (Row_ptr row) = (key, payload)"
    by (cases "et_heap e (Row_ptr row)")
  with assms obtain rowid p where "find (\<lambda>(rowid, k, p). k = key) (et_rows e) = Some (rowid, key, p)"
    using find_key_Some [of key e] by auto
  with h show ?thesis
    by (simp add: Table_apply_def table_apply_spec_def raise_if_err_def)
qed


text \<open>
  Claim C3. \<^verbatim>\<open>Table.apply\<close> never returns a negative row id: a row id it returns is the
  engine's and is not negative, and a negative engine return with an empty error
  descriptor raises \<^verbatim>\<open>FlintDBError\<close> (for every engine routine). On the engine as the spec
  describes it: a row whose primary key is not stored is inserted under a fresh,
  non-negative row id, which is returned; with \<^verbatim>\<open>check_dup\<close> set, a row whose primary key
  collides is rejected with DuplicateKey and the table is left unchanged.
\<close>

theorem apply_inserts_or_rejects:
  "(fst (Table_apply af tbl row cd s) = Inr rid \<longrightarrow>
      0 \<le> rid \<and> ret_of (af (table_t tbl) (Row_ptr row) (if cd then 1 else 0) s) = rid) \<and>
   (err_of (af (table_t tbl) (Row_ptr row) (if cd then 1 else 0) s) = None \<and>
    ret_of (af (table_t tbl) (Row_ptr row) (if cd then 1 else 0) s) < 0 \<longrightarrow>
      fst (Table_apply af tbl row cd s) = Inl (FlintDBError ''apply returned < 0'')) \<and>
   (et_wf e \<and> fst (et_heap e (Row_ptr row)) \<notin> stored_keys e \<longrightarrow>
      Table_apply table_apply_spec tbl row cd e =
        (Inr (et_next e),
         e\<lparr>et_rows := et_rows e @ [(et_next e, et_heap e (Row_ptr row))],
           et_next := et_next e + 1\<rparr>) \<and>
      0 \<le> et_next e \<and> et_next e \<notin> stored_ids e \<and>
      et_wf (snd (Table_apply table_apply_spec tbl row cd e))) \<and>
   (fst (et_heap e (Row_ptr row)) \<in> stored_keys e \<longrightarrow>
      Table_apply table_apply_spec tbl row True e = (Inl (FlintDBError ''DuplicateKey''), e))"
proof (intro conjI impI)
  show "0 \<le> rid" and "ret_of (af (table_t tbl) (Row_ptr row) (if cd then 1 else 0) s) = rid"
    if "fst (Table_apply af tbl row cd s) = Inr rid"
    using Table_apply_Inr [OF that] by simp_all
  show "fst (Table_apply af tbl row cd s) = Inl (FlintDBError ''apply returned < 0'')"
    if "err_of (af (table_t tbl) (Row_ptr row) (if cd then 1 else 0) s) = None \<and>
        ret_of (af (table_t tbl) (Row_ptr row) (if cd then 1 else 0) s) < 0"
    using that by (simp add: Table_apply_negative)
next
  assume a: "et_wf e \<and> fst (et_heap e (Row_ptr row)) \<notin> stored_keys e"
  then have ins: "Table_apply table_apply_spec tbl row cd e =
        (Inr (et_next e),
         e\<lparr>et_rows := et_rows e @ [(et_next e, et_heap e (Row_ptr row))],
           et_next := et_next e + 1\<rparr>)"
    by (simp add: apply_spec_insert)
  then show "Table_apply table_apply_spec tbl row cd e =
        (Inr (et_next e),
         e\<lparr>et_rows := et_rows e @ [(et_next e, et_heap e (Row_ptr row))],
           et_next := et_next e + 1\<rparr>)" .
  from a show "0 \<le> et_next e" and "et_next e \<notin> stored_ids e"
    using apply_spec_fresh [of e] by simp_all
  from a show "et_wf (snd (Table_apply table_apply_spec tbl row cd e))"
    by (simp only: ins snd_conv apply_spec_wf)
next
  assume "fst (et_heap e (Row_ptr row)) \<in> stored_keys e"
  then show "Table_apply table_apply_spec tbl row True e = (Inl (FlintDBError ''DuplicateKey''), e)"
    by (rule apply_spec_duplicate)
qed

text \<open>
  An instance: on the example table, the row at address 3 (key 11) is inserted under the
  fresh row id 1; the row at address 2 (key 10) is rejected with DuplicateKey; an engine
  returning \<open>-1\<close> without error makes \<^verbatim>\<open>apply\<close> raise, one returning 5 makes it return 5.
\<close>

theorem apply_inserts_or_rejects_witness:
  "et_wf example_table \<and>
   fst (Table_apply table_apply_spec \<lparr>table_t = 1\<rparr> (Row_owned 3) True example_table) = Inr 1 \<and>
   1 \<notin> stored_ids example_table \<and>
   et_rows (snd (Table_apply table_apply_spec \<lparr>table_t = 1\<rparr> (Row_owned 3) True example_table)) =
     [(0, 10, ''Ann''), (1, 11, ''Cy'')] \<and>
   Table_apply table_apply_spec \<lparr>table_t = 1\<rparr> (Row_owned 2) True example_table =
     (Inl (FlintDBError ''DuplicateKey''), example_table) \<and>
   fst (Table_apply (\<lambda>t r u s. ((- 1, None), s)) \<lparr>table_t = 1\<rparr> (Row_owned 2) True ()) =
     Inl (FlintDBError ''apply returned < 0'') \<and>
   fst (Table_apply (\<lambda>t r u s. ((5, None), s)) \<lparr>table_t = 1\<rparr> (Row_owned 2) True ()) = Inr 5"
proof -
  note w = apply_inserts_or_rejects [where e = example_table and tbl = "\<lparr>table_t = 1\<rparr>"
      and row = "Row_owned 3" and cd = True]
  note v = apply_inserts_or_rejects [where e = example_table and tbl = "\<lparr>table_t = 1\<rparr>"
      and row = "Row_owned 2" and cd = True and af = "\<lambda>t r u s. ((- 1, None), s)" and s = "()"]
  note u = apply_inserts_or_rejects [where tbl = "\<lparr>table_t = 1\<rparr>"
      and row = "Row_owned 2" and cd = True and af = "\<lambda>t r u s. ((5, None), s)" and s = "()"
      and rid = 5]
  have wf: "et_wf example_table" by (simp add: et_wf_def example_table_def)
  have k3: "fst (et_heap example_table (Row_ptr (Row_owned 3))) \<notin> stored_keys example_table"
    by (simp add: example_table_def stored_keys_def Row_ptr_def Row_owned_def)
  have k2: "fst (et_heap example_table (Row_ptr (Row_owned 2))) \<in> stored_keys example_table"
    by (simp add: example_table_def stored_keys_def Row_ptr_def Row_owned_def)
  have n: "err_of ((\<lambda>t r u s. ((- 1 :: int, None), s)) (table_t \<lparr>table_t = 1\<rparr>)
          (Row_ptr (Row_owned 2)) (if True then 1 else 0 :: int) ()) = None \<and>
      ret_of ((\<lambda>t r u s. ((- 1 :: int, None), s)) (table_t \<lparr>table_t = 1\<rparr>)
          (Row_ptr (Row_owned 2)) (if True then 1 else 0 :: int) ()) < 0"
    by (simp add: err_of_def ret_of_def)
  have five: "fst (Table_apply (\<lambda>t r u s. ((5, None), s)) \<lparr>table_t = 1\<rparr> (Row_owned 2) True ()) = Inr 5"
    by (simp add: Table_apply_def raise_if_err_def)
  from w [THEN conjunct2, THEN conjunct2, THEN conjunct1, THEN mp, OF conjI, OF wf k3]
  have 1: "fst (Table_apply table_apply_spec \<lparr>table_t = 1\<rparr> (Row_owned 3) True example_table) = Inr 1"
    and 2: "1 \<notin> stored_ids example_table"
    and 3: "et_rows (snd (Table_apply table_apply_spec \<lparr>table_t = 1\<rparr> (Row_owned 3) True example_table)) =
     [(0, 10, ''Ann''), (1, 11, ''Cy'')]"
    by (simp_all add: example_table_def Row_ptr_def Row_owned_def)
  from v [THEN conjunct2, THEN conjunct2, THEN conjunct2, THEN mp, OF k2]
  have 4: "Table_apply table_apply_spec \<lparr>table_t = 1\<rparr> (Row_owned 2) True example_table =
     (Inl (FlintDBError ''DuplicateKey''), example_table)" .
  from v [THEN conjunct2, THEN conjunct1, THEN mp, OF n]
  have 5: "fst (Table_apply (\<lambda>t r u s. ((- 1, None), s)) \<lparr>table_t = 1\<rparr> (Row_owned 2) True ()) =
     Inl (FlintDBError ''apply returned < 0'')" .
  from u [THEN conjunct1, THEN mp, OF five] have 6: "(0 :: int) \<le> 5" by simp
  from wf 1 2 3 4 5 five show ?thesis by simp
qed

end
